theory Spec2Isabelle
  imports Main "HOL-Library.Sublist"
begin

section \<open>Data model\<close>

text \<open>
  The archiver talks to two things outside itself: the remote Payload API and the local
  file system. Both are parameters of the model (record \<open>outside\<close>): the answer of the
  API to a request and the failure of a file operation depend only on the request or
  operation itself. What the program did to them is kept in the state (record
  \<open>state\<close>): the requests issued and the file operations completed, in order.
  Console output, the spinner, the pacing delay and the admission gate of p-limit
  have no part in the values computed and are left out.

  A thrown JavaScript error is the \<open>Inl\<close> of a sum, carrying the message of the error.
\<close>

type_synonym errmsg = string

datatype jsval =
    JNull
  | JBool bool
  | JNum int
  | JStr string
  | JArr "jsval list"
  | JObj "(string \<times> jsval) list"

text \<open>A document is a JSON object: its keys in order, with their values.\<close>

type_synonym document = "(string \<times> jsval) list"

fun typeof :: "jsval \<Rightarrow> string" where
  "typeof JNull = ''object''"
| "typeof (JBool b) = ''boolean''"
| "typeof (JNum n) = ''number''"
| "typeof (JStr s) = ''string''"
| "typeof (JArr xs) = ''object''"
| "typeof (JObj kvs) = ''object''"

text \<open>
  The query of \<open>getCollectionData\<close>: \<open>page\<close>, \<open>limit\<close>, \<open>depth\<close> and \<open>sort\<close>.
\<close>

record options =
  opt_page :: nat
  opt_limit :: nat
  opt_depth :: nat
  opt_sort :: string

text \<open>
  The three paths the client requests: \<open>/access\<close>, \<open>/{collection}/count\<close> and
  \<open>/{collection}?page=..&limit=..&depth=..&sort=..\<close>.
\<close>

datatype path =
    AccessPath
  | CountPath string
  | DataPath string options

text \<open>
  A response body, read the way the client reads it: a field that is absent (or a body
  that is not JSON, whose every field is \<open>undefined\<close>) is \<open>None\<close>; of the
  \<open>collections\<close> object only the keys are used; \<open>hasNextPage\<close> is the truthiness
  of that field. A body that is the JSON value \<open>null\<close>, on which reading a field throws
  a TypeError, is not represented: where it arrives the client behaves as it does for a
  failed request, except in \<open>getAccess\<close> itself, which returns it.
\<close>

record response =
  canAccessAdmin :: bool
  resp_collections :: "string list option"
  resp_totalDocs :: "int option"
  resp_docs :: "document list option"
  hasNextPage :: bool
  nextPage :: "int option"

record field_descriptor =
  fd_name :: string
  fd_type :: string
  hasValue :: bool

record schema_descriptor =
  sch_collection :: string
  sch_fields :: "field_descriptor list"
  totalDocs :: int
  sampleDoc :: "document option"
  sch_error :: "errmsg option"

record CollectionInfo =
  name :: string
  count :: "int option"
  schema :: schema_descriptor
  hasData :: bool

record error_entry =
  collection :: "string option"
  phase :: string
  error :: errmsg

record BackupStats =
  startTime :: "nat option"
  endTime :: "nat option"
  totalCollections :: nat
  totalRecords :: nat
  successfulCollections :: nat
  failedCollections :: nat
  errors :: "error_entry list"

record collection_result =
  res_name :: string
  recordCount :: "int option"
  backupSuccess :: bool

record BackupResult =
  success :: bool
  environment :: string
  backupPath :: "string option"
  statistics :: BackupStats
  collections :: "collection_result list"

text \<open>The entries of \<open>CONFIG\<close>: \<open>api_base\<close> and \<open>api_key\<close> come from the process
  environment and may be undefined.\<close>

record EnvConfig =
  api_base :: "string option"
  api_key :: "string option"

record FetchPayloadClient =
  config :: EnvConfig

record FileManager =
  outputDir :: string
  backupTimestamp :: string

datatype loglevel = INFO | WARN | ERROR

datatype logmessage =
    Discovered nat
  | AnalysisComplete string
  | AnalysisFailed string
  | BackupSuccessful string
  | BackupFailed string

text \<open>The operations of the file manager that touch the disk, with what they write.\<close>

datatype fsop =
    CreateStructure string
  | SaveData string string "document list"
  | SaveSchema string string schema_descriptor
  | SaveMetadata string "CollectionInfo list" BackupStats
  | AddLog string loglevel logmessage
  | GenerateSummary string "CollectionInfo list" nat

record outside =
  testConfig :: EnvConfig
  prodConfig :: EnvConfig
  fetch :: "EnvConfig \<Rightarrow> path \<Rightarrow> errmsg + response"
  fsFails :: "fsop \<Rightarrow> errmsg option"
  batchSize :: nat
  configuredOutputDir :: string
  pathJoin :: "string list \<Rightarrow> string"
  clockAtStart :: nat
  clockAtConstruction :: string
  clockAtReport :: nat

record state =
  stats :: BackupStats
  requests :: "path list"
  files :: "fsop list"

section \<open>config.js\<close>

text \<open>\<open>CONFIG[env]\<close>: the object has the keys \<open>test\<close> and \<open>prod\<close>; the name of a
  property inherited from \<open>Object.prototype\<close> finds a value with neither \<open>api_base\<close>
  nor \<open>api_key\<close>; any other name finds nothing.\<close>

definition inheritedProperties :: "string list" where
  "inheritedProperties =
     [''constructor'', ''hasOwnProperty'', ''isPrototypeOf'', ''propertyIsEnumerable'',
      ''toLocaleString'', ''toString'', ''valueOf'', ''__proto__'',
      ''__defineGetter__'', ''__defineSetter__'', ''__lookupGetter__'', ''__lookupSetter__'']"

definition CONFIG :: "outside \<Rightarrow> string \<Rightarrow> EnvConfig option" where
  "CONFIG E env =
     (if env = ''test'' then Some (testConfig E)
      else if env = ''prod'' then Some (prodConfig E)
      else if env \<in> set inheritedProperties then Some \<lparr> api_base = None, api_key = None \<rparr>
      else None)"

definition saveCollectionSchemaFlag :: bool where
  "saveCollectionSchemaFlag = True"

definition saveDetailedLogs :: bool where
  "saveDetailedLogs = True"

definition falsy :: "string option \<Rightarrow> bool" where
  "falsy v = (case v of None \<Rightarrow> True | Some s \<Rightarrow> s = [])"

definition getEnvConfig :: "outside \<Rightarrow> string \<Rightarrow> errmsg + EnvConfig" where
  "getEnvConfig E env =
     (case CONFIG E env of
        None \<Rightarrow> Inl (''Unknown environment: '' @ env @ ''. Available: test, prod'')
      | Some cfg \<Rightarrow>
          if falsy (api_base cfg) \<or> falsy (api_key cfg)
          then Inl (''Missing required environment variables for '' @ env
                    @ '' environment. Please check your .env file.'')
          else Inr cfg)"

section \<open>FetchPayloadClient\<close>

definition request ::
  "outside \<Rightarrow> FetchPayloadClient \<Rightarrow> path \<Rightarrow> state \<Rightarrow> (errmsg + response) \<times> state" where
  "request E client p s = (fetch E (config client) p, s\<lparr>requests := requests s @ [p]\<rparr>)"

text \<open>Run sequentially, the gate and the delay of \<open>limitedRequest\<close> only call the
  request function.\<close>

definition limitedRequest :: "(state \<Rightarrow> (errmsg + 'a) \<times> state) \<Rightarrow> state \<Rightarrow> (errmsg + 'a) \<times> state" where
  "limitedRequest requestFn s = requestFn s"

definition getAccess ::
  "outside \<Rightarrow> FetchPayloadClient \<Rightarrow> state \<Rightarrow> (errmsg + response) \<times> state" where
  "getAccess E client s = limitedRequest (request E client AccessPath) s"

definition client_discoverCollections ::
  "outside \<Rightarrow> FetchPayloadClient \<Rightarrow> state \<Rightarrow> (errmsg + string list) \<times> state" where
  "client_discoverCollections E client s =
     (case getAccess E client s of
        (Inl e, s1) \<Rightarrow> (Inl (''Failed to discover collections: '' @ e), s1)
      | (Inr access, s1) \<Rightarrow>
          (let cols = (case resp_collections access of None \<Rightarrow> [] | Some ks \<Rightarrow> ks)
           in if length cols = 0 then (Inr [], s1) else (Inr cols, s1)))"

definition getCollectionCount ::
  "outside \<Rightarrow> FetchPayloadClient \<Rightarrow> string \<Rightarrow> state \<Rightarrow> (errmsg + int option) \<times> state" where
  "getCollectionCount E client c s =
     limitedRequest (\<lambda>s0.
       case request E client (CountPath c) s0 of
         (Inl e, s1) \<Rightarrow> (Inl e, s1)
       | (Inr resp, s1) \<Rightarrow> (Inr (resp_totalDocs resp), s1)) s"

text \<open>\<open>getCollectionData\<close> with the \<open>page\<close> and \<open>limit\<close> options its callers pass or
  leave out; \<open>depth\<close> and \<open>sort\<close> keep their defaults at every call.\<close>

definition getCollectionData ::
  "outside \<Rightarrow> FetchPayloadClient \<Rightarrow> string \<Rightarrow> nat option \<Rightarrow> nat option \<Rightarrow> state
     \<Rightarrow> (errmsg + response) \<times> state" where
  "getCollectionData E client c pageOpt limitOpt s =
     (let q = \<lparr> opt_page = (case pageOpt of None \<Rightarrow> 1 | Some p \<Rightarrow> p),
                opt_limit = (case limitOpt of None \<Rightarrow> batchSize E | Some l \<Rightarrow> l),
                opt_depth = 2,
                opt_sort = ''-createdAt'' \<rparr>
      in limitedRequest (request E client (DataPath c q)) s)"

text \<open>\<open>data.hasNextPage || (data.nextPage && data.nextPage > currentPage)\<close>, as a truth
  value.\<close>

definition nextPageFlag :: "response \<Rightarrow> nat \<Rightarrow> bool" where
  "nextPageFlag data currentPage =
     (hasNextPage data \<or>
      (case nextPage data of None \<Rightarrow> False | Some n \<Rightarrow> n \<noteq> 0 \<and> n > int currentPage))"

text \<open>The \<open>while (hasNextPage)\<close> loop of \<open>getAllCollectionData\<close>, entered with the flag
  set. A server that always announces a next page keeps it running: the value is then
  \<open>None\<close>.\<close>

partial_function (option) getAllCollectionData_loop ::
  "outside \<Rightarrow> FetchPayloadClient \<Rightarrow> string \<Rightarrow> nat \<Rightarrow> document list \<Rightarrow> state
     \<Rightarrow> (document list \<times> state) option" where
  "getAllCollectionData_loop E client c currentPage allDocs s =
     (case getCollectionData E client c (Some currentPage) None s of
        (Inl e, s1) \<Rightarrow> Some (allDocs, s1)
      | (Inr data, s1) \<Rightarrow>
          (case resp_docs data of
             None \<Rightarrow> Some (allDocs, s1)
           | Some ds \<Rightarrow>
               if length ds > 0
               then (if nextPageFlag data currentPage
                     then getAllCollectionData_loop E client c (currentPage + 1) (allDocs @ ds) s1
                     else Some (allDocs @ ds, s1))
               else Some (allDocs, s1)))"

declare getAllCollectionData_loop.simps [code]

definition getAllCollectionData ::
  "outside \<Rightarrow> FetchPayloadClient \<Rightarrow> string \<Rightarrow> state
     \<Rightarrow> ((errmsg + document list) \<times> state) option" where
  "getAllCollectionData E client c s =
     (case getAllCollectionData_loop E client c 1 [] s of
        None \<Rightarrow> None
      | Some (allDocs, s1) \<Rightarrow> Some (Inr allDocs, s1))"

definition emptySchema :: "string \<Rightarrow> errmsg option \<Rightarrow> schema_descriptor" where
  "emptySchema c err =
     \<lparr> sch_collection = c, sch_fields = [], totalDocs = 0, sampleDoc = None, sch_error = err \<rparr>"

definition getCollectionSchema ::
  "outside \<Rightarrow> FetchPayloadClient \<Rightarrow> string \<Rightarrow> state \<Rightarrow> (errmsg + schema_descriptor) \<times> state" where
  "getCollectionSchema E client c s =
     (case getCollectionData E client c None (Some 1) s of
        (Inl e, s1) \<Rightarrow> (Inr (emptySchema c (Some e)), s1)
      | (Inr data, s1) \<Rightarrow>
          (case resp_docs data of
             None \<Rightarrow> (Inr (emptySchema c None), s1)
           | Some [] \<Rightarrow> (Inr (emptySchema c None), s1)
           | Some (doc # rest) \<Rightarrow>
               (Inr \<lparr> sch_collection = c,
                      sch_fields = map (\<lambda>(k, v). \<lparr> fd_name = k, fd_type = typeof v,
                                   hasValue = (case v of JNull \<Rightarrow> False | _ \<Rightarrow> True) \<rparr>) doc,
                      totalDocs = (case resp_totalDocs data of None \<Rightarrow> 0 | Some n \<Rightarrow> n),
                      sampleDoc = Some doc,
                      sch_error = None \<rparr>, s1)))"

section \<open>FileManager\<close>

text \<open>A file operation either fails, leaving no trace, or completes and is recorded.\<close>

definition perform :: "outside \<Rightarrow> fsop \<Rightarrow> state \<Rightarrow> (errmsg + unit) \<times> state" where
  "perform E op s =
     (case fsFails E op of
        Some e \<Rightarrow> (Inl e, s)
      | None \<Rightarrow> (Inr (), s\<lparr>files := files s @ [op]\<rparr>))"

definition new_FileManager :: "outside \<Rightarrow> FileManager" where
  "new_FileManager E =
     \<lparr> outputDir = configuredOutputDir E, backupTimestamp = clockAtConstruction E \<rparr>"

definition getBackupDir :: "outside \<Rightarrow> FileManager \<Rightarrow> string \<Rightarrow> string" where
  "getBackupDir E fileManager env = pathJoin E [outputDir fileManager, env, backupTimestamp fileManager]"

definition saveCollectionData ::
  "outside \<Rightarrow> FileManager \<Rightarrow> string \<Rightarrow> string \<Rightarrow> document list \<Rightarrow> state
     \<Rightarrow> (errmsg + unit) \<times> state" where
  "saveCollectionData E fileManager env c data s = perform E (SaveData env c data) s"

definition saveCollectionSchema ::
  "outside \<Rightarrow> FileManager \<Rightarrow> string \<Rightarrow> string \<Rightarrow> schema_descriptor \<Rightarrow> state
     \<Rightarrow> (errmsg + unit) \<times> state" where
  "saveCollectionSchema E fileManager env c sch s =
     (if \<not> saveCollectionSchemaFlag then (Inr (), s)
      else perform E (SaveSchema env c sch) s)"

definition saveMetadata ::
  "outside \<Rightarrow> FileManager \<Rightarrow> string \<Rightarrow> CollectionInfo list \<Rightarrow> BackupStats \<Rightarrow> state
     \<Rightarrow> (errmsg + unit) \<times> state" where
  "saveMetadata E fileManager env cols st s = perform E (SaveMetadata env cols st) s"

definition addLog ::
  "outside \<Rightarrow> FileManager \<Rightarrow> string \<Rightarrow> loglevel \<Rightarrow> logmessage \<Rightarrow> state
     \<Rightarrow> (errmsg + unit) \<times> state" where
  "addLog E fileManager env level message s =
     (if \<not> saveDetailedLogs then (Inr (), s)
      else perform E (AddLog env level message) s)"

definition createBackupStructure ::
  "outside \<Rightarrow> FileManager \<Rightarrow> string \<Rightarrow> state \<Rightarrow> (errmsg + string) \<times> state" where
  "createBackupStructure E fileManager env s =
     (case perform E (CreateStructure env) s of
        (Inl e, s1) \<Rightarrow> (Inl e, s1)
      | (Inr u, s1) \<Rightarrow> (Inr (getBackupDir E fileManager env), s1))"

definition generateSummary ::
  "outside \<Rightarrow> FileManager \<Rightarrow> string \<Rightarrow> CollectionInfo list \<Rightarrow> nat \<Rightarrow> state
     \<Rightarrow> (errmsg + unit) \<times> state" where
  "generateSummary E fileManager env cols n s = perform E (GenerateSummary env cols n) s"

section \<open>BackupService\<close>

text \<open>The constructor: the only place that creates the statistics.\<close>

definition new_stats :: BackupStats where
  "new_stats =
     \<lparr> startTime = None, endTime = None, totalCollections = 0, totalRecords = 0,
       successfulCollections = 0, failedCollections = 0, errors = [] \<rparr>"

definition pushError :: "error_entry \<Rightarrow> state \<Rightarrow> state" where
  "pushError entry s = s\<lparr>stats := (stats s)\<lparr>errors := errors (stats s) @ [entry]\<rparr>\<rparr>"

definition validateConnection ::
  "outside \<Rightarrow> FetchPayloadClient \<Rightarrow> state \<Rightarrow> (errmsg + bool) \<times> state" where
  "validateConnection E client s =
     (case getAccess E client s of
        (Inr access, s1) \<Rightarrow> (Inr True, s1)
      | (Inl e, s1) \<Rightarrow> (Inr False, s1))"

text \<open>The two probes at the head of the inner \<open>try\<close> of \<open>discoverCollections\<close>.\<close>

definition probeCollection ::
  "outside \<Rightarrow> FetchPayloadClient \<Rightarrow> string \<Rightarrow> state
     \<Rightarrow> (errmsg + int option \<times> schema_descriptor) \<times> state" where
  "probeCollection E client c s =
     (case getCollectionCount E client c s of
        (Inl e, s1) \<Rightarrow> (Inl e, s1)
      | (Inr cnt, s1) \<Rightarrow>
          (case getCollectionSchema E client c s1 of
             (Inl e, s2) \<Rightarrow> (Inl e, s2)
           | (Inr sch, s2) \<Rightarrow> (Inr (cnt, sch), s2)))"

text \<open>The inner \<open>catch\<close>: the warning is logged first, then the error is recorded. The
  result is the list of collection infos as it stands.\<close>

definition analysisFailed ::
  "outside \<Rightarrow> FileManager \<Rightarrow> string \<Rightarrow> string \<Rightarrow> errmsg \<Rightarrow> CollectionInfo list \<Rightarrow> state
     \<Rightarrow> (errmsg + CollectionInfo list) \<times> state" where
  "analysisFailed E fileManager env c e collectionInfos s =
     (case addLog E fileManager env WARN (AnalysisFailed c) s of
        (Inl e', s1) \<Rightarrow> (Inl e', s1)
      | (Inr u, s1) \<Rightarrow>
          (Inr collectionInfos,
           pushError \<lparr> collection = Some c, phase = ''discovery'', error = e \<rparr> s1))"

text \<open>One round of the \<open>for\<close> loop of \<open>discoverCollections\<close>.\<close>

definition analyzeCollection ::
  "outside \<Rightarrow> FetchPayloadClient \<Rightarrow> FileManager \<Rightarrow> string \<Rightarrow> string \<Rightarrow> CollectionInfo list
     \<Rightarrow> state \<Rightarrow> (errmsg + CollectionInfo list) \<times> state" where
  "analyzeCollection E client fileManager env c collectionInfos s =
     (case probeCollection E client c s of
        (Inl e, s1) \<Rightarrow> analysisFailed E fileManager env c e collectionInfos s1
      | (Inr (cnt, sch), s1) \<Rightarrow>
          (let pushed = collectionInfos @
                 [\<lparr> name = c, count = cnt, schema = sch,
                    hasData = (case cnt of None \<Rightarrow> False | Some n \<Rightarrow> n > 0) \<rparr>]
           in case addLog E fileManager env INFO (AnalysisComplete c) s1 of
                (Inl e, s2) \<Rightarrow> analysisFailed E fileManager env c e pushed s2
              | (Inr u, s2) \<Rightarrow> (Inr pushed, s2)))"

fun analyzeCollections ::
  "outside \<Rightarrow> FetchPayloadClient \<Rightarrow> FileManager \<Rightarrow> string \<Rightarrow> string list \<Rightarrow> CollectionInfo list
     \<Rightarrow> state \<Rightarrow> (errmsg + CollectionInfo list) \<times> state" where
  "analyzeCollections E client fileManager env [] collectionInfos s = (Inr collectionInfos, s)"
| "analyzeCollections E client fileManager env (c # cs) collectionInfos s =
     (case analyzeCollection E client fileManager env c collectionInfos s of
        (Inl e, s1) \<Rightarrow> (Inl e, s1)
      | (Inr infos, s1) \<Rightarrow> analyzeCollections E client fileManager env cs infos s1)"

definition discoverCollections ::
  "outside \<Rightarrow> FetchPayloadClient \<Rightarrow> FileManager \<Rightarrow> string \<Rightarrow> state
     \<Rightarrow> (errmsg + CollectionInfo list) \<times> state" where
  "discoverCollections E client fileManager env s =
     (case client_discoverCollections E client s of
        (Inl e, s1) \<Rightarrow> (Inl e, s1)
      | (Inr cols, s1) \<Rightarrow>
          (case addLog E fileManager env INFO (Discovered (length cols)) s1 of
             (Inl e, s2) \<Rightarrow> (Inl e, s2)
           | (Inr u, s2) \<Rightarrow> analyzeCollections E client fileManager env cols [] s2))"

text \<open>The \<open>catch\<close> of \<open>backupCollection\<close>: the statistics are updated first, then the
  error is logged.\<close>

definition backupFailed ::
  "outside \<Rightarrow> FileManager \<Rightarrow> string \<Rightarrow> string \<Rightarrow> errmsg \<Rightarrow> state \<Rightarrow> (errmsg + bool) \<times> state" where
  "backupFailed E fileManager env c e s =
     (let s1 = pushError \<lparr> collection = Some c, phase = ''backup'', error = e \<rparr>
                 (s\<lparr>stats := (stats s)\<lparr>failedCollections := failedCollections (stats s) + 1\<rparr>\<rparr>)
      in case addLog E fileManager env ERROR (BackupFailed c) s1 of
           (Inl e', s2) \<Rightarrow> (Inl e', s2)
         | (Inr u, s2) \<Rightarrow> (Inr False, s2))"

definition recordSuccess :: "nat \<Rightarrow> state \<Rightarrow> state" where
  "recordSuccess n s =
     s\<lparr>stats := (stats s)\<lparr>totalRecords := totalRecords (stats s) + n,
                          successfulCollections := successfulCollections (stats s) + 1\<rparr>\<rparr>"

definition backupCollection ::
  "outside \<Rightarrow> FetchPayloadClient \<Rightarrow> FileManager \<Rightarrow> string \<Rightarrow> CollectionInfo \<Rightarrow> state
     \<Rightarrow> ((errmsg + bool) \<times> state) option" where
  "backupCollection E client fileManager env collectionInfo s =
     (let c = name collectionInfo in
      if count collectionInfo = Some 0 then Some (Inr True, s)
      else
        (case getAllCollectionData E client c s of
           None \<Rightarrow> None
         | Some (Inl e, s1) \<Rightarrow> Some (backupFailed E fileManager env c e s1)
         | Some (Inr data, s1) \<Rightarrow>
             Some
               (case saveCollectionData E fileManager env c data s1 of
                  (Inl e, s2) \<Rightarrow> backupFailed E fileManager env c e s2
                | (Inr u, s2) \<Rightarrow>
                    (case saveCollectionSchema E fileManager env c (schema collectionInfo) s2 of
                       (Inl e, s3) \<Rightarrow> backupFailed E fileManager env c e s3
                     | (Inr u', s3) \<Rightarrow>
                         (case addLog E fileManager env INFO (BackupSuccessful c)
                                 (recordSuccess (length data) s3) of
                            (Inl e, s4) \<Rightarrow> backupFailed E fileManager env c e s4
                          | (Inr u'', s4) \<Rightarrow> (Inr True, s4))))))"

definition getBackupResult ::
  "outside \<Rightarrow> state \<Rightarrow> string \<Rightarrow> FileManager option \<Rightarrow> CollectionInfo list \<Rightarrow> BackupResult" where
  "getBackupResult E s env fileManager cols =
     \<lparr> success = (failedCollections (stats s) = 0 \<and> length (errors (stats s)) = 0),
       environment = env,
       backupPath = (case fileManager of None \<Rightarrow> None | Some fm \<Rightarrow> Some (getBackupDir E fm env)),
       statistics = stats s,
       collections =
         map (\<lambda>col. \<lparr> res_name = name col, recordCount = count col,
                      backupSuccess =
                        (\<not> list_ex (\<lambda>err. collection err = Some (name col)) (errors (stats s))) \<rparr>)
           cols \<rparr>"

definition generateFinalReport ::
  "outside \<Rightarrow> FileManager \<Rightarrow> string \<Rightarrow> CollectionInfo list \<Rightarrow> state
     \<Rightarrow> (errmsg + BackupResult) \<times> state" where
  "generateFinalReport E fileManager env cols s =
     (let s0 = s\<lparr>stats := (stats s)\<lparr>endTime := Some (clockAtReport E)\<rparr>\<rparr> in
      case saveMetadata E fileManager env cols (stats s0) s0 of
        (Inl e, s1) \<Rightarrow> (Inl e, s1)
      | (Inr u, s1) \<Rightarrow>
          (case generateSummary E fileManager env cols (totalRecords (stats s1)) s1 of
             (Inl e, s2) \<Rightarrow> (Inl e, s2)
           | (Inr u', s2) \<Rightarrow> (Inr (getBackupResult E s2 env (Some fileManager) cols), s2)))"

text \<open>The \<open>for\<close> loop of \<open>performBackup\<close> over the discovered collections; the boolean
  of \<open>backupCollection\<close> is dropped, an error it throws ends the loop.\<close>

fun backupCollections ::
  "outside \<Rightarrow> FetchPayloadClient \<Rightarrow> FileManager \<Rightarrow> string \<Rightarrow> CollectionInfo list \<Rightarrow> state
     \<Rightarrow> ((errmsg + unit) \<times> state) option" where
  "backupCollections E client fileManager env [] s = Some (Inr (), s)"
| "backupCollections E client fileManager env (col # cols) s =
     (case backupCollection E client fileManager env col s of
        None \<Rightarrow> None
      | Some (Inl e, s1) \<Rightarrow> Some (Inl e, s1)
      | Some (Inr b, s1) \<Rightarrow> backupCollections E client fileManager env cols s1)"

text \<open>The body of the \<open>try\<close> of \<open>performBackup\<close>.\<close>

definition performBackup_try ::
  "outside \<Rightarrow> string \<Rightarrow> state \<Rightarrow> ((errmsg + BackupResult) \<times> state) option" where
  "performBackup_try E env s =
     (case getEnvConfig E env of
        Inl e \<Rightarrow> Some (Inl e, s)
      | Inr cfg \<Rightarrow>
          (let client = \<lparr> config = cfg \<rparr>; fileManager = new_FileManager E in
           case validateConnection E client s of
             (Inl e, s1) \<Rightarrow> Some (Inl e, s1)
           | (Inr isConnected, s1) \<Rightarrow>
               if \<not> isConnected
               then Some (Inl ''API connection failed, cannot continue backup'', s1)
               else
                 (case createBackupStructure E fileManager env s1 of
                    (Inl e, s2) \<Rightarrow> Some (Inl e, s2)
                  | (Inr backupDir, s2) \<Rightarrow>
                      (case discoverCollections E client fileManager env s2 of
                         (Inl e, s3) \<Rightarrow> Some (Inl e, s3)
                       | (Inr cols, s3) \<Rightarrow>
                           (let s4 = s3\<lparr>stats := (stats s3)\<lparr>totalCollections := length cols\<rparr>\<rparr> in
                            if length cols = 0
                            then Some (Inr (getBackupResult E s4 env (Some fileManager) cols), s4)
                            else
                              (case backupCollections E client fileManager env cols s4 of
                                 None \<Rightarrow> None
                               | Some (Inl e, s5) \<Rightarrow> Some (Inl e, s5)
                               | Some (Inr u, s5) \<Rightarrow>
                                   Some (generateFinalReport E fileManager env cols s5)))))))"

definition performBackup ::
  "outside \<Rightarrow> string \<Rightarrow> state \<Rightarrow> (BackupResult \<times> state) option" where
  "performBackup E env s =
     (let s0 = s\<lparr>stats := (stats s)\<lparr>startTime := Some (clockAtStart E)\<rparr>\<rparr> in
      case performBackup_try E env s0 of
        None \<Rightarrow> None
      | Some (Inr result, s1) \<Rightarrow> Some (result, s1)
      | Some (Inl e, s1) \<Rightarrow>
          (let s2 = pushError \<lparr> collection = None, phase = ''general'', error = e \<rparr> s1
           in Some (getBackupResult E s2 env None [], s2)))"

section \<open>Concrete servers and disks\<close>

definition emptyBody :: response where
  "emptyBody =
     \<lparr> canAccessAdmin = False, resp_collections = None, resp_totalDocs = None,
       resp_docs = None, hasNextPage = False, nextPage = None \<rparr>"

definition someOutside :: "(path \<Rightarrow> errmsg + response) \<Rightarrow> (fsop \<Rightarrow> errmsg option) \<Rightarrow> outside" where
  "someOutside api disk =
     \<lparr> testConfig = \<lparr> api_base = Some ''https://cms.test/api'', api_key = Some ''key'' \<rparr>,
       prodConfig = \<lparr> api_base = None, api_key = None \<rparr>,
       fetch = (\<lambda>cfg. api),
       fsFails = disk,
       batchSize = 100,
       configuredOutputDir = ''./backup'',
       pathJoin = (\<lambda>ps. concat (map (\<lambda>p. p @ ''/'') ps)),
       clockAtStart = 0,
       clockAtConstruction = ''2024-01-15T10-30-00-000Z'',
       clockAtReport = 7 \<rparr>"

definition testClient :: FetchPayloadClient where
  "testClient = \<lparr> config = \<lparr> api_base = Some ''https://cms.test/api'', api_key = Some ''key'' \<rparr> \<rparr>"

definition freshState :: state where
  "freshState = \<lparr> stats = new_stats, requests = [], files = [] \<rparr>"

definition healthyDisk :: "fsop \<Rightarrow> errmsg option" where
  "healthyDisk op = None"

text \<open>A server with two collections: \<open>users\<close> holds two documents, \<open>posts\<close> none.\<close>

definition blogApi :: "path \<Rightarrow> errmsg + response" where
  "blogApi p =
     (case p of
        AccessPath \<Rightarrow>
          Inr (emptyBody\<lparr>canAccessAdmin := True, resp_collections := Some [''users'', ''posts'']\<rparr>)
      | CountPath c \<Rightarrow>
          if c = ''users'' then Inr (emptyBody\<lparr>resp_totalDocs := Some 2\<rparr>)
          else if c = ''posts'' then Inr (emptyBody\<lparr>resp_totalDocs := Some 0\<rparr>)
          else Inl ''HTTP 404: Not Found''
      | DataPath c q \<Rightarrow>
          if c = ''users'' \<and> opt_page q = 1
          then Inr (emptyBody\<lparr>resp_totalDocs := Some 2,
                      resp_docs := Some (take (opt_limit q)
                                     [[(''id'', JNum 1), (''email'', JStr ''a@b.c'')],
                                      [(''id'', JNum 2), (''email'', JNull)]])\<rparr>)
          else Inr (emptyBody\<lparr>resp_totalDocs := Some 0, resp_docs := Some []\<rparr>))"

text \<open>A server that answers no request.\<close>

definition downApi :: "path \<Rightarrow> errmsg + response" where
  "downApi p = Inl ''HTTP 503: Service Unavailable''"

text \<open>A server whose collection \<open>articles\<close> has two full pages and times out on the
  third.\<close>

definition pagedApi :: "path \<Rightarrow> errmsg + response" where
  "pagedApi p =
     (case p of
        AccessPath \<Rightarrow> Inr (emptyBody\<lparr>resp_collections := Some [''articles'']\<rparr>)
      | CountPath c \<Rightarrow> Inr (emptyBody\<lparr>resp_totalDocs := Some 5\<rparr>)
      | DataPath c q \<Rightarrow>
          if opt_page q = 1
          then Inr (emptyBody\<lparr>resp_totalDocs := Some 5, hasNextPage := True, nextPage := Some 2,
                      resp_docs := Some [[(''id'', JNum 1)], [(''id'', JNum 2)]]\<rparr>)
          else if opt_page q = 2
          then Inr (emptyBody\<lparr>resp_totalDocs := Some 5, hasNextPage := False, nextPage := Some 3,
                      resp_docs := Some [[(''id'', JNum 3)], [(''id'', JNum 4)]]\<rparr>)
          else Inl ''Request timeout: /articles'')"

text \<open>A server that counts the documents of \<open>posts\<close> and \<open>pages\<close> but fails every data
  request for \<open>posts\<close>; it cannot count \<open>media\<close>.\<close>

definition flakyApi :: "path \<Rightarrow> errmsg + response" where
  "flakyApi p =
     (case p of
        AccessPath \<Rightarrow> Inr (emptyBody\<lparr>resp_collections := Some [''posts'', ''media'', ''pages'']\<rparr>)
      | CountPath c \<Rightarrow>
          if c = ''media'' then Inl ''HTTP 403: Forbidden''
          else Inr (emptyBody\<lparr>resp_totalDocs := Some 1\<rparr>)
      | DataPath c q \<Rightarrow>
          if c = ''posts'' then Inl ''HTTP 500: Internal Server Error''
          else if opt_page q = 1
          then Inr (emptyBody\<lparr>resp_totalDocs := Some 1, resp_docs := Some [[(''id'', JNum 1)]]\<rparr>)
          else Inr (emptyBody\<lparr>resp_totalDocs := Some 1, resp_docs := Some []\<rparr>))"

text \<open>A disk with no space left: data files and log lines cannot be written.\<close>

definition fullDisk :: "fsop \<Rightarrow> errmsg option" where
  "fullDisk op =
     (case op of
        SaveData env c docs \<Rightarrow> Some ''ENOSPC: no space left on device, write''
      | AddLog env level message \<Rightarrow> Some ''ENOSPC: no space left on device, write''
      | _ \<Rightarrow> None)"

text \<open>A disk on which every file is written, except that the line of the log reporting
  a successful backup meets a write error.\<close>

definition brokenLog :: "fsop \<Rightarrow> errmsg option" where
  "brokenLog op =
     (case op of
        AddLog env level message \<Rightarrow>
          (case message of
             BackupSuccessful c \<Rightarrow> Some ''EIO: i/o error, write''
           | _ \<Rightarrow> None)
      | _ \<Rightarrow> None)"

text \<open>A disk on which the line of the log reporting the analysis of \<open>pages\<close> meets a
  write error.\<close>

definition analysisLogBroken :: "fsop \<Rightarrow> errmsg option" where
  "analysisLogBroken op =
     (case op of
        AddLog env level message \<Rightarrow>
          (case message of
             AnalysisComplete c \<Rightarrow> if c = ''pages'' then Some ''EIO: i/o error, write'' else None
           | _ \<Rightarrow> None)
      | _ \<Rightarrow> None)"

text \<open>A disk on which the line of the log reporting a failed analysis meets a write
  error.\<close>

definition warningLogBroken :: "fsop \<Rightarrow> errmsg option" where
  "warningLogBroken op =
     (case op of
        AddLog env level message \<Rightarrow>
          (case message of
             AnalysisFailed c \<Rightarrow> Some ''EIO: i/o error, write''
           | _ \<Rightarrow> None)
      | _ \<Rightarrow> None)"

definition usersInfo :: CollectionInfo where
  "usersInfo =
     \<lparr> name = ''users'', count = Some 2, schema = emptySchema ''users'' None, hasData = True \<rparr>"

definition postsInfo :: CollectionInfo where
  "postsInfo =
     \<lparr> name = ''posts'', count = Some 0, schema = emptySchema ''posts'' None, hasData = False \<rparr>"

section \<open>Notions used in the statements\<close>

text \<open>The request \<open>getAllCollectionData\<close> issues for page \<open>n\<close> of a collection.\<close>

definition pageRequest :: "outside \<Rightarrow> string \<Rightarrow> nat \<Rightarrow> path" where
  "pageRequest E c n =
     DataPath c \<lparr> opt_page = n, opt_limit = batchSize E, opt_depth = 2, opt_sort = ''-createdAt'' \<rparr>"

text \<open>The request for page \<open>n\<close> fails.\<close>

definition pageFails :: "outside \<Rightarrow> FetchPayloadClient \<Rightarrow> string \<Rightarrow> nat \<Rightarrow> bool" where
  "pageFails E client c n = isl (fetch E (config client) (pageRequest E c n))"

text \<open>The documents of page \<open>n\<close>, when the request for it succeeds.\<close>

definition pageDocs :: "outside \<Rightarrow> FetchPayloadClient \<Rightarrow> string \<Rightarrow> nat \<Rightarrow> document list" where
  "pageDocs E client c n =
     (case fetch E (config client) (pageRequest E c n) of
        Inl e \<Rightarrow> []
      | Inr data \<Rightarrow> (case resp_docs data of None \<Rightarrow> [] | Some ds \<Rightarrow> ds))"

text \<open>Page \<open>n\<close> is retrieved, holds documents and announces a next page: the loop goes on
  to page \<open>n + 1\<close>.\<close>

definition pageContinues :: "outside \<Rightarrow> FetchPayloadClient \<Rightarrow> string \<Rightarrow> nat \<Rightarrow> bool" where
  "pageContinues E client c n =
     (case fetch E (config client) (pageRequest E c n) of
        Inl e \<Rightarrow> False
      | Inr data \<Rightarrow>
          (case resp_docs data of
             None \<Rightarrow> False
           | Some ds \<Rightarrow> length ds > 0 \<and> nextPageFlag data n))"

text \<open>The state of the service once \<open>performBackup\<close> has set \<open>startTime\<close>.\<close>

definition started :: "outside \<Rightarrow> state \<Rightarrow> state" where
  "started E s = s\<lparr>stats := (stats s)\<lparr>startTime := Some (clockAtStart E)\<rparr>\<rparr>"

text \<open>The statistics \<open>b\<close> hold everything the statistics \<open>a\<close> held: no counter is smaller
  and the error entries of \<open>a\<close> open those of \<open>b\<close>.\<close>

definition accumulates :: "BackupStats \<Rightarrow> BackupStats \<Rightarrow> bool" where
  "accumulates a b \<longleftrightarrow>
     totalRecords a \<le> totalRecords b \<and>
     successfulCollections a \<le> successfulCollections b \<and>
     failedCollections a \<le> failedCollections b \<and>
     prefix (errors a) (errors b)"

text \<open>The request of the schema probe: the first page, one document.\<close>

definition schemaRequest :: "string \<Rightarrow> path" where
  "schemaRequest c =
     DataPath c \<lparr> opt_page = 1, opt_limit = 1, opt_depth = 2, opt_sort = ''-createdAt'' \<rparr>"

text \<open>The outcome of probing a collection for its count and schema. It is the same in
  every state (lemma \<open>probeCollection_result\<close>).\<close>

definition probeResult ::
  "outside \<Rightarrow> FetchPayloadClient \<Rightarrow> string \<Rightarrow> errmsg + int option \<times> schema_descriptor" where
  "probeResult E client c = fst (probeCollection E client c freshState)"

definition probeThrows :: "outside \<Rightarrow> FetchPayloadClient \<Rightarrow> string \<Rightarrow> bool" where
  "probeThrows E client c = isl (probeResult E client c)"

text \<open>What one round of the discovery loop appends to the collection infos.\<close>

definition pushedFor :: "outside \<Rightarrow> FetchPayloadClient \<Rightarrow> string \<Rightarrow> CollectionInfo list" where
  "pushedFor E client c =
     (case probeResult E client c of
        Inl e \<Rightarrow> []
      | Inr (cnt, sch) \<Rightarrow>
          [\<lparr> name = c, count = cnt, schema = sch,
             hasData = (case cnt of None \<Rightarrow> False | Some n \<Rightarrow> n > 0) \<rparr>])"

text \<open>What one round of the discovery loop appends to the error entries, when it does
  not throw: the error of the probe or, the probe done, the error of the log.\<close>

definition recordedFor ::
  "outside \<Rightarrow> FetchPayloadClient \<Rightarrow> string \<Rightarrow> string \<Rightarrow> error_entry list" where
  "recordedFor E client env c =
     (case probeResult E client c of
        Inl e \<Rightarrow> [\<lparr> collection = Some c, phase = ''discovery'', error = e \<rparr>]
      | Inr found \<Rightarrow>
          (case fsFails E (AddLog env INFO (AnalysisComplete c)) of
             None \<Rightarrow> []
           | Some e \<Rightarrow> [\<lparr> collection = Some c, phase = ''discovery'', error = e \<rparr>]))"

section \<open>Unfolding the model\<close>

lemmas client_defs = request_def limitedRequest_def getAccess_def client_discoverCollections_def
  getCollectionCount_def getCollectionData_def nextPageFlag_def getAllCollectionData_def
  emptySchema_def getCollectionSchema_def

lemmas config_defs = CONFIG_def inheritedProperties_def saveCollectionSchemaFlag_def
  saveDetailedLogs_def falsy_def getEnvConfig_def

lemmas fm_defs = perform_def new_FileManager_def getBackupDir_def saveCollectionData_def
  saveCollectionSchema_def saveMetadata_def addLog_def createBackupStructure_def generateSummary_def

lemmas svc_defs = new_stats_def pushError_def validateConnection_def probeCollection_def
  analysisFailed_def analyzeCollection_def discoverCollections_def backupFailed_def recordSuccess_def
  backupCollection_def getBackupResult_def generateFinalReport_def performBackup_try_def
  performBackup_def

lemmas demo_defs = emptyBody_def someOutside_def testClient_def freshState_def healthyDisk_def
  blogApi_def downApi_def pagedApi_def flakyApi_def fullDisk_def brokenLog_def
  analysisLogBroken_def warningLogBroken_def usersInfo_def
  postsInfo_def

lemmas run_defs = demo_defs config_defs client_defs fm_defs svc_defs
  getAllCollectionData_loop.simps Let_def

section \<open>The result of a run\<close>

lemma generateFinalReport_result:
  "generateFinalReport E fm env cols s = (Inr r, s') \<Longrightarrow>
     r = getBackupResult E s' env (Some fm) cols"
  by (auto simp: generateFinalReport_def Let_def split: prod.splits sum.splits)

lemma performBackup_try_result:
  "performBackup_try E env s = Some (Inr r, s') \<Longrightarrow>
     \<exists>fm cols. r = getBackupResult E s' env fm cols"
  unfolding performBackup_try_def Let_def
  by (auto split: sum.splits prod.splits if_splits option.splits dest: generateFinalReport_result)

lemma performBackup_result:
  "performBackup E env s = Some (r, s') \<Longrightarrow> \<exists>fm cols. r = getBackupResult E s' env fm cols"
  unfolding performBackup_def Let_def
  by (auto split: option.splits sum.splits prod.splits dest: performBackup_try_result)

text \<open>
  C1. Whenever \<open>performBackup\<close> returns, the \<open>success\<close> flag of its result is true exactly
  when the statistics of the result show no failed collection and no error entry; these
  statistics are the statistics of the service at that moment. This holds on every path:
  the early return for no collection, the final report, and the top-level \<open>catch\<close>.
\<close>

theorem success_iff_no_failure:
  assumes "performBackup E env s = Some (result, s')"
  shows "(success result \<longleftrightarrow>
            failedCollections (statistics result) = 0 \<and> length (errors (statistics result)) = 0)
         \<and> statistics result = stats s'"
proof -
  from assms obtain fm cols where "result = getBackupResult E s' env fm cols"
    using performBackup_result by blast
  then show ?thesis by (simp add: getBackupResult_def)
qed

text \<open>The run against the server with two collections completes, and succeeds.\<close>

theorem success_iff_no_failure_witness:
  "(case performBackup (someOutside blogApi healthyDisk) ''test'' freshState of
      None \<Rightarrow> False
    | Some (r, s') \<Rightarrow>
        success r \<and> failedCollections (statistics r) = 0 \<and> length (errors (statistics r)) = 0
        \<and> statistics r = stats s')"
proof -
  have ran: "(case performBackup (someOutside blogApi healthyDisk) ''test'' freshState of
                None \<Rightarrow> False | Some (r, s') \<Rightarrow> success r)"
    by (simp add: run_defs)
  then obtain r s' where
    run: "performBackup (someOutside blogApi healthyDisk) ''test'' freshState = Some (r, s')"
    by (auto split: option.splits)
  from ran run have "success r" by simp
  with success_iff_no_failure [OF run] show ?thesis by (auto simp: run)
qed

section \<open>Empty collections\<close>

text \<open>
  C7. For a collection whose count is 0, \<open>backupCollection\<close> returns true and leaves the
  whole state as it was: no request is issued, no file operation is performed (so no data
  or schema file is written), and the statistics, with their error entries, are unchanged.
\<close>

theorem empty_collection_skipped:
  assumes "count collectionInfo = Some 0"
  shows "backupCollection E client fileManager env collectionInfo s = Some (Inr True, s)"
  using assms by (simp add: backupCollection_def)

theorem empty_collection_skipped_witness:
  "count postsInfo = Some 0 \<and>
   backupCollection (someOutside blogApi fullDisk) testClient
     (new_FileManager (someOutside blogApi fullDisk)) ''test'' postsInfo freshState
   = Some (Inr True, freshState)"
  using empty_collection_skipped [of postsInfo "someOutside blogApi fullDisk" testClient
      "new_FileManager (someOutside blogApi fullDisk)" "''test''" freshState]
  by (simp add: postsInfo_def)

section \<open>Pagination\<close>

lemma getCollectionData_page:
  "getCollectionData E client c (Some n) None s =
     (fetch E (config client) (pageRequest E c n), s\<lparr>requests := requests s @ [pageRequest E c n]\<rparr>)"
  by (simp add: getCollectionData_def limitedRequest_def request_def pageRequest_def Let_def)

lemma loop_until_failure:
  assumes "pageFails E client c k"
    and "\<forall>i. j \<le> i \<and> i < k \<longrightarrow> pageContinues E client c i"
    and "j \<le> k"
  shows "getAllCollectionData_loop E client c j acc s =
           Some (acc @ concat (map (pageDocs E client c) [j..<k]),
                 s\<lparr>requests := requests s @ map (pageRequest E c) [j..<Suc k]\<rparr>)"
  using assms
proof (induction "k - j" arbitrary: j acc s)
  case 0
  then have "j = k" by simp
  with "0.prems"(1) obtain e where "fetch E (config client) (pageRequest E c j) = Inl e"
    by (auto simp: pageFails_def isl_def)
  then show ?case using \<open>j = k\<close>
    by (subst getAllCollectionData_loop.simps) (simp add: getCollectionData_page)
next
  case (Suc n)
  then have lt: "j < k" by simp
  with Suc.prems(2) have "pageContinues E client c j" by simp
  then obtain data ds where
    f: "fetch E (config client) (pageRequest E c j) = Inr data"
    and d: "resp_docs data = Some ds" and ne: "length ds > 0" and fl: "nextPageFlag data j"
    by (auto simp: pageContinues_def split: sum.splits option.splits)
  have pd: "pageDocs E client c j = ds" by (simp add: pageDocs_def f d)
  have step: "getAllCollectionData_loop E client c j acc s =
      getAllCollectionData_loop E client c (Suc j) (acc @ ds)
        (s\<lparr>requests := requests s @ [pageRequest E c j]\<rparr>)"
    using ne by (subst getAllCollectionData_loop.simps) (simp add: getCollectionData_page f d fl)
  have ih: "getAllCollectionData_loop E client c (Suc j) (acc @ ds)
        (s\<lparr>requests := requests s @ [pageRequest E c j]\<rparr>) =
      Some ((acc @ ds) @ concat (map (pageDocs E client c) [Suc j..<k]),
            (s\<lparr>requests := requests s @ [pageRequest E c j]\<rparr>)
              \<lparr>requests := requests (s\<lparr>requests := requests s @ [pageRequest E c j]\<rparr>)
                           @ map (pageRequest E c) [Suc j..<Suc k]\<rparr>)"
    using Suc.hyps(2) Suc.prems lt by (intro Suc.hyps(1)) auto
  have l1: "[j..<k] = j # [Suc j..<k]" using lt by (simp add: upt_conv_Cons)
  have l2: "[j..<Suc k] = j # [Suc j..<Suc k]" using lt by (simp add: upt_conv_Cons)
  show ?case unfolding step ih l1 l2 by (simp add: pd)
qed

text \<open>
  C2. Page \<open>k\<close> is requested exactly when every page before it was retrieved, held
  documents and announced a next page. If the request for page \<open>k\<close> then fails,
  \<open>getAllCollectionData\<close> returns (it does not run on, and it does not throw: the value
  is an \<open>Inr\<close>) the documents of pages \<open>1\<close> to \<open>k - 1\<close> in page order, and the
  failing request is the last one it issued.
\<close>

theorem failed_page_keeps_earlier_pages:
  assumes "1 \<le> k"
    and "pageFails E client c k"
    and "\<forall>j. 1 \<le> j \<and> j < k \<longrightarrow> pageContinues E client c j"
  shows "getAllCollectionData E client c s =
           Some (Inr (concat (map (pageDocs E client c) [1..<k])),
                 s\<lparr>requests := requests s @ map (pageRequest E c) [1..<Suc k]\<rparr>)"
  using loop_until_failure [OF assms(2,3,1), of "[]" s]
  by (simp add: getAllCollectionData_def)

text \<open>Whatever the server answers, no error leaves \<open>getAllCollectionData\<close>.\<close>

lemma getAllCollectionData_never_throws:
  "getAllCollectionData E client c s = Some (r, s') \<Longrightarrow> \<exists>docs. r = Inr docs"
  by (auto simp: getAllCollectionData_def split: option.splits)

text \<open>The third page times out: the documents of pages 1 and 2 are returned.\<close>

theorem failed_page_keeps_earlier_pages_witness:
  "pageFails (someOutside pagedApi healthyDisk) testClient ''articles'' 3 \<and>
   pageContinues (someOutside pagedApi healthyDisk) testClient ''articles'' 1 \<and>
   pageContinues (someOutside pagedApi healthyDisk) testClient ''articles'' 2 \<and>
   getAllCollectionData (someOutside pagedApi healthyDisk) testClient ''articles'' freshState =
     Some (Inr [[(''id'', JNum 1)], [(''id'', JNum 2)], [(''id'', JNum 3)], [(''id'', JNum 4)]],
           freshState\<lparr>requests :=
             [pageRequest (someOutside pagedApi healthyDisk) ''articles'' 1,
              pageRequest (someOutside pagedApi healthyDisk) ''articles'' 2,
              pageRequest (someOutside pagedApi healthyDisk) ''articles'' 3]\<rparr>)"
proof -
  let ?E = "someOutside pagedApi healthyDisk"
  have f: "pageFails ?E testClient ''articles'' 3"
    by (simp add: pageFails_def pageRequest_def demo_defs)
  have c1: "pageContinues ?E testClient ''articles'' 1"
    by (simp add: pageContinues_def pageRequest_def nextPageFlag_def demo_defs)
  have c2: "pageContinues ?E testClient ''articles'' 2"
    by (simp add: pageContinues_def pageRequest_def nextPageFlag_def demo_defs)
  have all: "\<forall>j. 1 \<le> j \<and> j < 3 \<longrightarrow> pageContinues ?E testClient ''articles'' j"
  proof (intro allI impI)
    fix j :: nat assume "1 \<le> j \<and> j < 3"
    then have "j = 1 \<or> j = 2" by auto
    then show "pageContinues ?E testClient ''articles'' j" using c1 c2 by auto
  qed
  have d1: "pageDocs ?E testClient ''articles'' (Suc 0) = [[(''id'', JNum 1)], [(''id'', JNum 2)]]"
    by (simp add: pageDocs_def pageRequest_def demo_defs)
  have d2: "pageDocs ?E testClient ''articles'' 2 = [[(''id'', JNum 3)], [(''id'', JNum 4)]]"
    by (simp add: pageDocs_def pageRequest_def demo_defs)
  have u1: "[1..<3] = [1, 2::nat]" by (simp add: upt_conv_Cons)
  have u2: "[1..<Suc 3] = [1, 2, 3::nat]" by (simp add: upt_conv_Cons)
  have "(1::nat) \<le> 3" by simp
  from failed_page_keeps_earlier_pages [OF this f all, of freshState, unfolded u1 u2]
  show ?thesis using f c1 c2 by (simp add: d1 d2 freshState_def)
qed

section \<open>The connection gate\<close>

lemma validateConnection_catches:
  "getAccess E client s = (Inl e, s1) \<Longrightarrow> validateConnection E client s = (Inr False, s1)"
  by (simp add: validateConnection_def)

lemma validateConnection_false:
  "fst (validateConnection E client s) = Inr False \<Longrightarrow>
     validateConnection E client s = (Inr False, s\<lparr>requests := requests s @ [AccessPath]\<rparr>)"
  by (auto simp: validateConnection_def getAccess_def limitedRequest_def request_def
           split: sum.splits prod.splits)

text \<open>
  C8. An error thrown by \<open>getAccess\<close> makes \<open>validateConnection\<close> return false, not
  throw. When \<open>validateConnection\<close> returns false inside \<open>performBackup\<close> (which calls
  it once the configuration of the environment is resolved), the run ends at once: the
  only request issued is the one for \<open>/access\<close>, no file operation is performed, the
  statistics gain the one entry of phase \<open>general\<close>, and the result has \<open>success\<close> false
  and no backup path.
\<close>

theorem failed_validation_aborts:
  assumes cfg: "getEnvConfig E env = Inr cfg"
    and gate: "fst (validateConnection E \<lparr>config = cfg\<rparr> (started E s)) = Inr False"
  shows "(\<forall>client s0 e s1. getAccess E client s0 = (Inl e, s1)
            \<longrightarrow> validateConnection E client s0 = (Inr False, s1))
       \<and> (\<exists>result s'. performBackup E env s = Some (result, s')
            \<and> success result = False \<and> backupPath result = None \<and> collections result = []
            \<and> requests s' = requests s @ [AccessPath]
            \<and> files s' = files s
            \<and> stats s' = (stats s)\<lparr>startTime := Some (clockAtStart E),
                 errors := errors (stats s) @
                   [\<lparr> collection = None, phase = ''general'',
                      error = ''API connection failed, cannot continue backup'' \<rparr>]\<rparr>)"
proof
  show "\<forall>client s0 e s1. getAccess E client s0 = (Inl e, s1)
            \<longrightarrow> validateConnection E client s0 = (Inr False, s1)"
    by (simp add: validateConnection_catches)
  have v: "validateConnection E \<lparr>config = cfg\<rparr> (started E s) =
             (Inr False, (started E s)\<lparr>requests := requests (started E s) @ [AccessPath]\<rparr>)"
    using gate by (rule validateConnection_false)
  have t: "performBackup_try E env (started E s) =
      Some (Inl ''API connection failed, cannot continue backup'',
            (started E s)\<lparr>requests := requests (started E s) @ [AccessPath]\<rparr>)"
    by (simp add: performBackup_try_def cfg v Let_def)
  show "\<exists>result s'. performBackup E env s = Some (result, s')
            \<and> success result = False \<and> backupPath result = None \<and> collections result = []
            \<and> requests s' = requests s @ [AccessPath]
            \<and> files s' = files s
            \<and> stats s' = (stats s)\<lparr>startTime := Some (clockAtStart E),
                 errors := errors (stats s) @
                   [\<lparr> collection = None, phase = ''general'',
                      error = ''API connection failed, cannot continue backup'' \<rparr>]\<rparr>"
    using t by (simp add: performBackup_def started_def Let_def pushError_def getBackupResult_def)
qed

theorem failed_validation_aborts_witness:
  "getEnvConfig (someOutside downApi healthyDisk) ''test'' = Inr (config testClient) \<and>
   fst (validateConnection (someOutside downApi healthyDisk) testClient
          (started (someOutside downApi healthyDisk) freshState)) = Inr False \<and>
   (case performBackup (someOutside downApi healthyDisk) ''test'' freshState of
      None \<Rightarrow> False
    | Some (result, s') \<Rightarrow>
        \<not> success result \<and> backupPath result = None \<and> requests s' = [AccessPath] \<and> files s' = [])"
proof -
  let ?E = "someOutside downApi healthyDisk"
  have cfg: "getEnvConfig ?E ''test'' = Inr (config testClient)"
    by (simp add: demo_defs config_defs)
  have tc: "\<lparr>config = config testClient\<rparr> = testClient" by (simp add: testClient_def)
  have gate: "fst (validateConnection ?E \<lparr>config = config testClient\<rparr> (started ?E freshState)) = Inr False"
    by (simp add: demo_defs client_defs validateConnection_def started_def)
  from failed_validation_aborts [OF cfg gate] cfg gate show ?thesis
    by (auto simp: tc freshState_def)
qed

section \<open>What the client and the file manager leave alone\<close>

lemma request_frame:
  "request E client p s = (r, s') \<Longrightarrow> stats s' = stats s \<and> files s' = files s"
  by (auto simp: request_def)

lemma getCollectionData_frame:
  "getCollectionData E client c pg lim s = (r, s') \<Longrightarrow> stats s' = stats s \<and> files s' = files s"
  by (auto simp: getCollectionData_def limitedRequest_def request_def Let_def)

lemma getAllCollectionData_loop_frame:
  assumes "getAllCollectionData_loop E client c n acc s = Some y"
  shows "stats (snd y) = stats s \<and> files (snd y) = files s"
  using assms
proof (rule getAllCollectionData_loop.raw_induct [rotated 1,
         where P = "\<lambda>E client c n acc s y. stats (snd y) = stats s \<and> files (snd y) = files s"])
  fix loop E client c n acc s y
  assume IH: "\<And>E client c n (acc :: document list) s y.
          loop E client c n acc s = Some y \<Longrightarrow> stats (snd y) = stats s \<and> files (snd y) = files s"
    and body: "(case getCollectionData E client c (Some n) None s of
        (Inl e, s1) \<Rightarrow> Some (acc, s1)
      | (Inr data, s1) \<Rightarrow>
          (case resp_docs data of
             None \<Rightarrow> Some (acc, s1)
           | Some ds \<Rightarrow>
               if length ds > 0
               then (if nextPageFlag data n
                     then loop E client c (n + 1) (acc @ ds) s1
                     else Some (acc @ ds, s1))
               else Some (acc, s1))) = Some y"
  obtain r s1 where g: "getCollectionData E client c (Some n) None s = (r, s1)"
    by (cases "getCollectionData E client c (Some n) None s")
  then have fr: "stats s1 = stats s \<and> files s1 = files s"
    by (rule getCollectionData_frame)
  show "stats (snd y) = stats s \<and> files (snd y) = files s"
  proof (cases r)
    case (Inl e)
    with body g fr show ?thesis by auto
  next
    case (Inr data)
    show ?thesis
    proof (cases "resp_docs data")
      case None
      with body g fr Inr show ?thesis by auto
    next
      case (Some ds)
      show ?thesis
      proof (cases "0 < length ds \<and> nextPageFlag data n")
        case True
        with body g Inr Some have "loop E client c (n + 1) (acc @ ds) s1 = Some y"
          by simp
        from IH [OF this] fr show ?thesis by simp
      next
        case False
        with body g fr Inr Some show ?thesis by (auto split: if_splits)
      qed
    qed
  qed
qed

lemma getAllCollectionData_frame:
  "getAllCollectionData E client c s = Some (r, s') \<Longrightarrow> stats s' = stats s \<and> files s' = files s"
  by (auto simp: getAllCollectionData_def split: option.splits dest: getAllCollectionData_loop_frame)

lemma perform_frame:
  "perform E op s = (r, s') \<Longrightarrow> stats s' = stats s \<and> requests s' = requests s"
  by (auto simp: perform_def split: option.splits)

lemma addLog_frame:
  "addLog E fm env level message s = (r, s') \<Longrightarrow> stats s' = stats s \<and> requests s' = requests s"
  by (auto simp: addLog_def split: if_splits dest: perform_frame)

section \<open>Backing up one collection\<close>

lemma backupCollection_success:
  assumes "count collectionInfo \<noteq> Some 0"
    and "getAllCollectionData E client (name collectionInfo) s = Some (Inr data, s1)"
    and "fsFails E (SaveData env (name collectionInfo) data) = None"
    and "fsFails E (SaveSchema env (name collectionInfo) (schema collectionInfo)) = None"
    and "fsFails E (AddLog env INFO (BackupSuccessful (name collectionInfo))) = None"
  shows "backupCollection E client fileManager env collectionInfo s =
           Some (Inr True,
                 s1\<lparr>stats := (stats s)\<lparr>totalRecords := totalRecords (stats s) + length data,
                        successfulCollections := successfulCollections (stats s) + 1\<rparr>,
                    files := files s @
                      [SaveData env (name collectionInfo) data,
                       SaveSchema env (name collectionInfo) (schema collectionInfo),
                       AddLog env INFO (BackupSuccessful (name collectionInfo))]\<rparr>)"
proof -
  from assms(2) have fr: "stats s1 = stats s" "files s1 = files s"
    using getAllCollectionData_frame by blast+
  show ?thesis
    using assms fr
    by (simp add: backupCollection_def Let_def fm_defs config_defs recordSuccess_def)
qed

text \<open>
  C4. For a collection with a count above 0 whose full retrieval returns and whose data
  file, schema file and line of the log are all written, \<open>backupCollection\<close> returns
  true, \<open>totalRecords\<close> grows by the number of documents retrieved and
  \<open>successfulCollections\<close> by one; the failure counter and the error entries stay.
\<close>

theorem successful_backup_counts:
  assumes "count collectionInfo = Some n" and "0 < n"
    and "getAllCollectionData E client (name collectionInfo) s = Some (Inr data, s1)"
    and "fsFails E (SaveData env (name collectionInfo) data) = None"
    and "fsFails E (SaveSchema env (name collectionInfo) (schema collectionInfo)) = None"
    and "fsFails E (AddLog env INFO (BackupSuccessful (name collectionInfo))) = None"
  shows "\<exists>s'. backupCollection E client fileManager env collectionInfo s = Some (Inr True, s')
           \<and> totalRecords (stats s') = totalRecords (stats s) + length data
           \<and> successfulCollections (stats s') = successfulCollections (stats s) + 1
           \<and> failedCollections (stats s') = failedCollections (stats s)
           \<and> errors (stats s') = errors (stats s)"
proof -
  from assms(1,2) have "count collectionInfo \<noteq> Some 0" by simp
  from backupCollection_success [OF this assms(3-6)] show ?thesis by simp
qed

text \<open>The two documents of \<open>users\<close> are saved on a healthy disk.\<close>

theorem successful_backup_counts_witness:
  "count usersInfo = Some 2 \<and>
   (case backupCollection (someOutside blogApi healthyDisk) testClient
           (new_FileManager (someOutside blogApi healthyDisk)) ''test'' usersInfo freshState of
      None \<Rightarrow> False
    | Some (r, s') \<Rightarrow>
        r = Inr True \<and> totalRecords (stats s') = 2 \<and> successfulCollections (stats s') = 1
        \<and> failedCollections (stats s') = 0 \<and> errors (stats s') = [])"
proof -
  let ?E = "someOutside blogApi healthyDisk"
  let ?docs = "[[(''id'', JNum 1), (''email'', JStr ''a@b.c'')], [(''id'', JNum 2), (''email'', JNull)]]"
  have c: "count usersInfo = Some 2" by (simp add: usersInfo_def)
  have pos: "(0::int) < 2" by simp
  have g: "getAllCollectionData ?E testClient (name usersInfo) freshState =
             Some (Inr ?docs, freshState\<lparr>requests := [pageRequest ?E ''users'' 1]\<rparr>)"
    by (simp add: run_defs pageRequest_def)
  have d1: "fsFails ?E (SaveData ''test'' (name usersInfo) ?docs) = None"
    by (simp add: demo_defs)
  have d2: "fsFails ?E (SaveSchema ''test'' (name usersInfo) (schema usersInfo)) = None"
    by (simp add: demo_defs)
  have d3: "fsFails ?E (AddLog ''test'' INFO (BackupSuccessful (name usersInfo))) = None"
    by (simp add: demo_defs)
  from successful_backup_counts [OF c pos g d1 d2 d3, of "new_FileManager ?E"] c
  show ?thesis by (auto simp: freshState_def new_stats_def)
qed

section \<open>A failing backup\<close>

text \<open>When a data or schema file cannot be written and the failure can be logged, the
  failure is recorded and \<open>backupCollection\<close> returns false.\<close>

lemma backupFailed_logged:
  assumes "fsFails E (AddLog env ERROR (BackupFailed c)) = None"
  shows "backupFailed E fileManager env c e s =
           (Inr False,
            s\<lparr>stats := (stats s)\<lparr>failedCollections := failedCollections (stats s) + 1,
                   errors := errors (stats s) @ [\<lparr>collection = Some c, phase = ''backup'', error = e\<rparr>]\<rparr>,
              files := files s @ [AddLog env ERROR (BackupFailed c)]\<rparr>)"
  using assms by (simp add: backupFailed_def Let_def pushError_def fm_defs config_defs)

lemma backupFailed_not_logged:
  assumes "fsFails E (AddLog env ERROR (BackupFailed c)) = Some e'"
  shows "backupFailed E fileManager env c e s =
           (Inl e',
            s\<lparr>stats := (stats s)\<lparr>failedCollections := failedCollections (stats s) + 1,
                   errors := errors (stats s) @ [\<lparr>collection = Some c, phase = ''backup'', error = e\<rparr>]\<rparr>\<rparr>)"
  using assms by (simp add: backupFailed_def Let_def pushError_def fm_defs config_defs)

lemma save_failure_recorded:
  assumes "count collectionInfo \<noteq> Some 0"
    and "getAllCollectionData E client (name collectionInfo) s = Some (Inr data, s1)"
    and "fsFails E (SaveData env (name collectionInfo) data) = Some e
         \<or> fsFails E (SaveData env (name collectionInfo) data) = None
           \<and> fsFails E (SaveSchema env (name collectionInfo) (schema collectionInfo)) = Some e"
    and "fsFails E (AddLog env ERROR (BackupFailed (name collectionInfo))) = None"
  shows "\<exists>s'. backupCollection E client fileManager env collectionInfo s = Some (Inr False, s')
           \<and> failedCollections (stats s') = failedCollections (stats s) + 1
           \<and> errors (stats s') = errors (stats s) @
                [\<lparr>collection = Some (name collectionInfo), phase = ''backup'', error = e\<rparr>]
           \<and> totalRecords (stats s') = totalRecords (stats s)
           \<and> successfulCollections (stats s') = successfulCollections (stats s)"
proof -
  from assms(2) have fr: "stats s1 = stats s"
    using getAllCollectionData_frame by blast
  from assms(3) show ?thesis
  proof
    assume "fsFails E (SaveData env (name collectionInfo) data) = Some e"
    then show ?thesis using assms(1,2,4) fr
      by (simp add: backupCollection_def Let_def backupFailed_logged saveCollectionData_def perform_def)
  next
    assume "fsFails E (SaveData env (name collectionInfo) data) = None
           \<and> fsFails E (SaveSchema env (name collectionInfo) (schema collectionInfo)) = Some e"
    then show ?thesis using assms(1,2,4) fr
      by (simp add: backupCollection_def Let_def backupFailed_logged saveCollectionData_def
            saveCollectionSchema_def saveCollectionSchemaFlag_def perform_def)
  qed
qed

text \<open>
  C5. The line of the log that reports a successful backup is appended inside the \<open>try\<close>,
  after the statistics were updated. When it cannot be appended, the error is caught and
  recorded and \<open>backupCollection\<close> returns false, yet \<open>totalRecords\<close> and
  \<open>successfulCollections\<close> have grown: the collection is counted as successful and as
  failed. And on a full disk, where the data file cannot be written and neither can the
  line of the log that reports it, \<open>backupCollection\<close> records the failure and then
  throws out of its own \<open>catch\<close>.
\<close>

theorem log_failure_in_backupCollection:
  "backupCollection (someOutside blogApi brokenLog) testClient
       (new_FileManager (someOutside blogApi brokenLog)) ''test'' usersInfo freshState
     = Some (Inr False,
             freshState\<lparr>
               stats := new_stats\<lparr>totalRecords := 2, successfulCollections := 1,
                 failedCollections := 1,
                 errors := [\<lparr>collection = Some ''users'', phase = ''backup'',
                             error = ''EIO: i/o error, write''\<rparr>]\<rparr>,
               requests := [pageRequest (someOutside blogApi brokenLog) ''users'' 1],
               files := [SaveData ''test'' ''users''
                           [[(''id'', JNum 1), (''email'', JStr ''a@b.c'')],
                            [(''id'', JNum 2), (''email'', JNull)]],
                         SaveSchema ''test'' ''users'' (emptySchema ''users'' None),
                         AddLog ''test'' ERROR (BackupFailed ''users'')]\<rparr>)
   \<and> backupCollection (someOutside blogApi fullDisk) testClient
       (new_FileManager (someOutside blogApi fullDisk)) ''test'' usersInfo freshState
     = Some (Inl ''ENOSPC: no space left on device, write'',
             freshState\<lparr>
               stats := new_stats\<lparr>failedCollections := 1,
                 errors := [\<lparr>collection = Some ''users'', phase = ''backup'',
                             error = ''ENOSPC: no space left on device, write''\<rparr>]\<rparr>,
               requests := [pageRequest (someOutside blogApi fullDisk) ''users'' 1]\<rparr>)"
  by (simp add: run_defs pageRequest_def)

section \<open>Discovery\<close>

lemma probeCollection_unfold:
  "probeCollection E client c s =
     (case fetch E (config client) (CountPath c) of
        Inl e \<Rightarrow> (Inl e, s\<lparr>requests := requests s @ [CountPath c]\<rparr>)
      | Inr resp \<Rightarrow>
          (Inr (resp_totalDocs resp,
                (case fetch E (config client) (schemaRequest c) of
                   Inl e \<Rightarrow> emptySchema c (Some e)
                 | Inr data \<Rightarrow>
                     (case resp_docs data of
                        None \<Rightarrow> emptySchema c None
                      | Some [] \<Rightarrow> emptySchema c None
                      | Some (doc # rest) \<Rightarrow>
                          \<lparr> sch_collection = c,
                            sch_fields = map (\<lambda>(k, v). \<lparr> fd_name = k, fd_type = typeof v,
                                   hasValue = (case v of JNull \<Rightarrow> False | _ \<Rightarrow> True) \<rparr>) doc,
                            totalDocs = (case resp_totalDocs data of None \<Rightarrow> 0 | Some n \<Rightarrow> n),
                            sampleDoc = Some doc,
                            sch_error = None \<rparr>))),
           s\<lparr>requests := requests s @ [CountPath c, schemaRequest c]\<rparr>))"
  by (simp add: probeCollection_def getCollectionCount_def getCollectionSchema_def
        getCollectionData_def limitedRequest_def request_def schemaRequest_def Let_def
      split: sum.splits option.splits list.splits)

lemma probeCollection_result:
  "fst (probeCollection E client c s) = probeResult E client c"
  by (simp add: probeResult_def probeCollection_unfold split: sum.splits)

lemma probeCollection_stats:
  "stats (snd (probeCollection E client c s)) = stats s"
  by (simp add: probeCollection_unfold split: sum.splits)

lemma getCollectionSchema_failure:
  assumes "fetch E (config client) (schemaRequest c) = Inl e"
  shows "getCollectionSchema E client c s =
           (Inr (emptySchema c (Some e)), s\<lparr>requests := requests s @ [schemaRequest c]\<rparr>)"
  using assms
  by (simp add: getCollectionSchema_def getCollectionData_def limitedRequest_def request_def
        schemaRequest_def Let_def)

lemma getCollectionSchema_never_throws:
  "\<exists>sch. fst (getCollectionSchema E client c s) = Inr sch"
  by (simp add: getCollectionSchema_def split: prod.splits sum.splits option.splits list.splits)

lemma analyzeCollection_round:
  assumes "analyzeCollection E client fm env c infos s = (Inr infos', s')"
  shows "infos' = infos @ pushedFor E client c
         \<and> stats s' = (stats s)\<lparr>errors := errors (stats s) @ recordedFor E client env c\<rparr>"
proof (cases "probeCollection E client c s")
  case (Pair r s1)
  then have r: "probeResult E client c = r" and st: "stats s1 = stats s"
    using probeCollection_result [of E client c s] probeCollection_stats [of E client c s]
    by simp_all
  show ?thesis
  proof (cases r)
    case (Inl e)
    have pc: "probeCollection E client c s = (Inl e, s1)" using Pair Inl by simp
    have pr: "probeResult E client c = Inl e" using r Inl by simp
    show ?thesis using assms st
      by (auto simp: analyzeCollection_def analysisFailed_def pushedFor_def recordedFor_def
            pushError_def addLog_def perform_def saveDetailedLogs_def pc pr
          split: option.splits)
  next
    case (Inr found)
    obtain cnt sch where found: "found = (cnt, sch)" by (cases found)
    have pc: "probeCollection E client c s = (Inr (cnt, sch), s1)" using Pair Inr found by simp
    have pr: "probeResult E client c = Inr (cnt, sch)" using r Inr found by simp
    show ?thesis using assms st
      by (auto simp: analyzeCollection_def analysisFailed_def pushedFor_def recordedFor_def
            pushError_def addLog_def perform_def saveDetailedLogs_def Let_def pc pr
          split: option.splits)
  qed
qed

lemma analyzeCollections_result:
  "analyzeCollections E client fm env names infos s = (Inr infos', s') \<Longrightarrow>
     infos' = infos @ concat (map (pushedFor E client) names)
     \<and> stats s' = (stats s)\<lparr>errors := errors (stats s)
                                  @ concat (map (recordedFor E client env) names)\<rparr>"
proof (induction names arbitrary: infos s)
  case Nil
  then show ?case by simp
next
  case (Cons c cs)
  obtain r s1 where a: "analyzeCollection E client fm env c infos s = (r, s1)"
    by (cases "analyzeCollection E client fm env c infos s")
  with Cons.prems obtain mid where r: "r = Inr mid"
    and rest: "analyzeCollections E client fm env cs mid s1 = (Inr infos', s')"
    by (cases r) auto
  from analyzeCollection_round [OF a [unfolded r]]
  have m: "mid = infos @ pushedFor E client c"
    and st: "stats s1 = (stats s)\<lparr>errors := errors (stats s) @ recordedFor E client env c\<rparr>"
    by simp_all
  from Cons.IH [OF rest] show ?case by (simp add: m st)
qed

lemma analyzeCollection_returns:
  assumes "\<forall>level message. fsFails E (AddLog env level message) = None"
  shows "\<exists>infos' s'. analyzeCollection E client fm env c infos s = (Inr infos', s')"
  using assms
  by (auto simp: analyzeCollection_def analysisFailed_def addLog_def perform_def Let_def
      split: prod.splits sum.splits)

lemma analyzeCollections_returns:
  assumes "\<forall>level message. fsFails E (AddLog env level message) = None"
  shows "\<exists>infos' s'. analyzeCollections E client fm env names infos s = (Inr infos', s')"
proof (induction names arbitrary: infos s)
  case Nil
  then show ?case by simp
next
  case (Cons c cs)
  from analyzeCollection_returns [OF assms] obtain mid s1 where
    "analyzeCollection E client fm env c infos s = (Inr mid, s1)" by blast
  then show ?case using Cons.IH [of mid s1] by simp
qed

lemma client_discoverCollections_stats:
  "client_discoverCollections E client s = (r, s1) \<Longrightarrow> stats s1 = stats s"
  by (auto simp: client_discoverCollections_def getAccess_def limitedRequest_def request_def Let_def
      split: sum.splits if_splits)

lemma discoverCollections_result:
  assumes "client_discoverCollections E client s = (Inr names, s1)"
    and "discoverCollections E client fm env s = (Inr infos, s')"
  shows "infos = concat (map (pushedFor E client) names)
         \<and> stats s' = (stats s)\<lparr>errors := errors (stats s)
                                      @ concat (map (recordedFor E client env) names)\<rparr>"
proof -
  from assms(1) have st1: "stats s1 = stats s" by (rule client_discoverCollections_stats)
  obtain r s2 where l: "addLog E fm env INFO (Discovered (length names)) s1 = (r, s2)"
    by (cases "addLog E fm env INFO (Discovered (length names)) s1")
  then have st2: "stats s2 = stats s1" using addLog_frame by blast
  from assms l obtain u where "r = Inr u"
    and "analyzeCollections E client fm env names [] s2 = (Inr infos, s')"
    by (cases r) (auto simp: discoverCollections_def)
  from analyzeCollections_result [OF this(2)] show ?thesis by (simp add: st1 st2)
qed

lemma discoverCollections_returns:
  assumes "client_discoverCollections E client s = (Inr names, s1)"
    and "\<forall>level message. fsFails E (AddLog env level message) = None"
  shows "\<exists>infos s'. discoverCollections E client fm env s = (Inr infos, s')"
proof -
  from assms(2) have "\<exists>s2. addLog E fm env INFO (Discovered (length names)) s1 = (Inr (), s2)"
    by (simp add: addLog_def perform_def)
  then obtain s2 where "addLog E fm env INFO (Discovered (length names)) s1 = (Inr (), s2)" ..
  with assms(1) analyzeCollections_returns [OF assms(2), of client fm names "[]" s2]
  show ?thesis by (simp add: discoverCollections_def)
qed

lemma name_pushedFor:
  "map name (concat (map (pushedFor E client) names)) = filter (\<lambda>c. \<not> probeThrows E client c) names"
  by (induction names) (auto simp: pushedFor_def probeThrows_def split: sum.splits)

lemma recordedFor_logged:
  assumes "\<forall>level message. fsFails E (AddLog env level message) = None"
  shows "concat (map (recordedFor E client env) names) =
           map (\<lambda>c. \<lparr> collection = Some c, phase = ''discovery'',
                      error = projl (probeResult E client c) \<rparr>)
             (filter (probeThrows E client) names)"
  using assms
  by (induction names) (auto simp: recordedFor_def probeThrows_def split: sum.splits)

lemma collection_recordedFor:
  "entry \<in> set (recordedFor E client env c) \<Longrightarrow> collection entry = Some c"
  by (auto simp: recordedFor_def split: sum.splits option.splits)

text \<open>
  When the client names \<open>N\<close> collections, every line of the log can be appended and
  exactly one of the names throws in its count or schema probe, discovery returns the
  infos of the other names, in order (\<open>N - 1\<close> of them), and the error entries gain one
  entry: that of the name that threw, with phase \<open>discovery\<close> and the message thrown.
\<close>

lemma probe_failure_isolated_when_logged:
  assumes names: "client_discoverCollections E client s = (Inr names, s1)"
    and logs: "\<forall>level message. fsFails E (AddLog env level message) = None"
    and one: "length (filter (probeThrows E client) names) = 1"
  shows "\<exists>infos s'. discoverCollections E client fm env s = (Inr infos, s')
           \<and> length infos = length names - 1
           \<and> map name infos = filter (\<lambda>c. \<not> probeThrows E client c) names
           \<and> (\<exists>c e. filter (probeThrows E client) names = [c]
                 \<and> probeResult E client c = Inl e
                 \<and> errors (stats s') = errors (stats s) @
                      [\<lparr> collection = Some c, phase = ''discovery'', error = e \<rparr>])"
proof -
  from discoverCollections_returns [OF names logs] obtain infos s' where
    ret: "discoverCollections E client fm env s = (Inr infos, s')" by blast
  from discoverCollections_result [OF names ret]
  have infos: "infos = concat (map (pushedFor E client) names)"
    and st: "stats s' = (stats s)\<lparr>errors := errors (stats s)
                                      @ concat (map (recordedFor E client env) names)\<rparr>"
    by simp_all
  have nm: "map name infos = filter (\<lambda>c. \<not> probeThrows E client c) names"
    by (simp add: infos name_pushedFor)
  have "length infos = length (map name infos)" by simp
  also have "\<dots> = length names - length (filter (probeThrows E client) names)"
    using sum_length_filter_compl [of "probeThrows E client" names] by (simp add: nm)
  finally have len: "length infos = length names - 1" by (simp add: one)
  from one obtain c where c: "filter (probeThrows E client) names = [c]"
    by (cases "filter (probeThrows E client) names") auto
  then have "c \<in> set (filter (probeThrows E client) names)" by simp
  then have "probeThrows E client c" by simp
  then obtain e where e: "probeResult E client c = Inl e"
    by (auto simp: probeThrows_def isl_def)
  have "errors (stats s') = errors (stats s) @
          [\<lparr> collection = Some c, phase = ''discovery'', error = e \<rparr>]"
    by (simp add: st recordedFor_logged [OF logs] c e)
  with ret len nm c e show ?thesis by blast
qed

text \<open>Of \<open>posts\<close>, \<open>media\<close> and \<open>pages\<close> only \<open>media\<close> cannot be counted.\<close>

lemma probe_failure_isolated_when_logged_example:
  "fst (client_discoverCollections (someOutside flakyApi healthyDisk) testClient freshState)
     = Inr [''posts'', ''media'', ''pages'']
   \<and> filter (probeThrows (someOutside flakyApi healthyDisk) testClient)
        [''posts'', ''media'', ''pages''] = [''media'']
   \<and> (case discoverCollections (someOutside flakyApi healthyDisk) testClient
              (new_FileManager (someOutside flakyApi healthyDisk)) ''test'' freshState of
         (Inl e, s') \<Rightarrow> False
       | (Inr infos, s') \<Rightarrow>
           length infos = 2 \<and> map name infos = [''posts'', ''pages'']
           \<and> errors (stats s') =
               [\<lparr> collection = Some ''media'', phase = ''discovery'',
                  error = ''HTTP 403: Forbidden'' \<rparr>])"
proof -
  let ?E = "someOutside flakyApi healthyDisk"
  let ?names = "[''posts'', ''media'', ''pages'']"
  have names: "client_discoverCollections ?E testClient freshState =
                 (Inr ?names, freshState\<lparr>requests := [AccessPath]\<rparr>)"
    by (simp add: run_defs)
  have logs: "\<forall>level message. fsFails ?E (AddLog ''test'' level message) = None"
    by (simp add: demo_defs)
  have f: "filter (probeThrows ?E testClient) ?names = [''media'']"
    by (simp add: probeThrows_def probeResult_def probeCollection_unfold schemaRequest_def demo_defs)
  have pr: "probeResult ?E testClient ''media'' = Inl ''HTTP 403: Forbidden''"
    by (simp add: probeResult_def probeCollection_unfold schemaRequest_def demo_defs)
  have one: "length (filter (probeThrows ?E testClient) ?names) = 1"
    unfolding f by simp
  have e0: "errors (stats freshState) = []" by (simp add: freshState_def new_stats_def)
  have g: "filter (\<lambda>c. \<not> probeThrows ?E testClient c) ?names = [''posts'', ''pages'']"
    by (simp add: probeThrows_def probeResult_def probeCollection_unfold schemaRequest_def demo_defs)
  from probe_failure_isolated_when_logged [OF names logs one, of "new_FileManager ?E"]
  obtain infos s' where
    "discoverCollections ?E testClient (new_FileManager ?E) ''test'' freshState = (Inr infos, s')"
    "length infos = 2" "map name infos = [''posts'', ''pages'']"
    "errors (stats s') = [\<lparr> collection = Some ''media'', phase = ''discovery'',
                             error = ''HTTP 403: Forbidden'' \<rparr>]"
    unfolding f g using pr by (auto simp: e0)
  then show ?thesis using names f by simp
qed

text \<open>
  C6. Of the three names \<open>posts\<close>, \<open>media\<close> and \<open>pages\<close> exactly one, \<open>media\<close>,
  throws in its probe. The line of the log that reports an analysis is appended inside
  the inner \<open>try\<close>, after the info was pushed: when that line cannot be appended for
  \<open>pages\<close>, discovery returns two infos and records two discovery entries, one of them
  for \<open>pages\<close>, which it returns. The inner \<open>catch\<close> appends its warning before it
  records the error: when the warning cannot be appended, discovery throws, returns no
  sequence and records nothing.
\<close>

theorem log_failure_in_discoverCollections:
  "filter (probeThrows (someOutside flakyApi analysisLogBroken) testClient)
       [''posts'', ''media'', ''pages''] = [''media'']
   \<and> fst (client_discoverCollections (someOutside flakyApi analysisLogBroken) testClient freshState)
       = Inr [''posts'', ''media'', ''pages'']
   \<and> map name (projr (fst (discoverCollections (someOutside flakyApi analysisLogBroken) testClient
            (new_FileManager (someOutside flakyApi analysisLogBroken)) ''test'' freshState)))
       = [''posts'', ''pages'']
   \<and> errors (stats (snd (discoverCollections (someOutside flakyApi analysisLogBroken) testClient
            (new_FileManager (someOutside flakyApi analysisLogBroken)) ''test'' freshState)))
       = [\<lparr> collection = Some ''media'', phase = ''discovery'', error = ''HTTP 403: Forbidden'' \<rparr>,
          \<lparr> collection = Some ''pages'', phase = ''discovery'', error = ''EIO: i/o error, write'' \<rparr>]
   \<and> filter (probeThrows (someOutside flakyApi warningLogBroken) testClient)
       [''posts'', ''media'', ''pages''] = [''media'']
   \<and> fst (client_discoverCollections (someOutside flakyApi warningLogBroken) testClient freshState)
       = Inr [''posts'', ''media'', ''pages'']
   \<and> fst (discoverCollections (someOutside flakyApi warningLogBroken) testClient
            (new_FileManager (someOutside flakyApi warningLogBroken)) ''test'' freshState)
       = Inl ''EIO: i/o error, write''
   \<and> errors (stats (snd (discoverCollections (someOutside flakyApi warningLogBroken) testClient
            (new_FileManager (someOutside flakyApi warningLogBroken)) ''test'' freshState)))
       = []"
  by (simp add: run_defs schemaRequest_def probeThrows_def probeResult_def)

section \<open>A failing schema probe\<close>

text \<open>
  C3, as stated, fails. The server counts \<open>posts\<close> and fails every data request for it,
  so the schema probe of \<open>posts\<close> fails with a request failure. Discovery still returns
  \<open>posts\<close>, and the only error entry it records is that of \<open>media\<close>.
\<close>

theorem schema_failure_not_excluded:
  "fetch (someOutside flakyApi healthyDisk) (config testClient) (schemaRequest ''posts'')
     = Inl ''HTTP 500: Internal Server Error''
   \<and> map name (projr (fst (discoverCollections (someOutside flakyApi healthyDisk) testClient
            (new_FileManager (someOutside flakyApi healthyDisk)) ''test'' freshState)))
     = [''posts'', ''pages'']
   \<and> errors (stats (snd (discoverCollections (someOutside flakyApi healthyDisk) testClient
            (new_FileManager (someOutside flakyApi healthyDisk)) ''test'' freshState)))
     = [\<lparr> collection = Some ''media'', phase = ''discovery'', error = ''HTTP 403: Forbidden'' \<rparr>]"
  by (simp add: run_defs schemaRequest_def)

text \<open>
  C3, amended. When the count probe of a named collection succeeds and the request of
  its schema probe fails, \<open>getCollectionSchema\<close> does not throw: it returns the descriptor
  with no fields that carries the message of the failure. Whenever discovery returns,
  the collection is among the infos returned, with that descriptor, and the entries
  added to the errors hold none for this collection, unless the line of the log for its
  analysis could not be appended.
\<close>

theorem schema_failure_keeps_collection:
  assumes names: "client_discoverCollections E client s = (Inr names, s1)"
    and ret: "discoverCollections E client fm env s = (Inr infos, s')"
    and c: "c \<in> set names"
    and cnt: "fetch E (config client) (CountPath c) = Inr resp"
    and sch: "fetch E (config client) (schemaRequest c) = Inl e"
  shows "fst (getCollectionSchema E client c s0) = Inr (emptySchema c (Some e))
       \<and> \<lparr> name = c, count = resp_totalDocs resp, schema = emptySchema c (Some e),
            hasData = (case resp_totalDocs resp of None \<Rightarrow> False | Some n \<Rightarrow> n > 0) \<rparr>
           \<in> set infos
       \<and> (\<exists>new. errors (stats s') = errors (stats s) @ new
             \<and> (fsFails E (AddLog env INFO (AnalysisComplete c)) = None
                  \<longrightarrow> Some c \<notin> set (map collection new)))"
proof (intro conjI)
  show "fst (getCollectionSchema E client c s0) = Inr (emptySchema c (Some e))"
    by (simp add: getCollectionSchema_failure [OF sch])
  have pr: "probeResult E client c = Inr (resp_totalDocs resp, emptySchema c (Some e))"
    by (simp add: probeResult_def probeCollection_unfold cnt sch)
  from discoverCollections_result [OF names ret]
  have infos: "infos = concat (map (pushedFor E client) names)"
    and st: "stats s' = (stats s)\<lparr>errors := errors (stats s)
                                      @ concat (map (recordedFor E client env) names)\<rparr>"
    by simp_all
  have "\<lparr> name = c, count = resp_totalDocs resp, schema = emptySchema c (Some e),
          hasData = (case resp_totalDocs resp of None \<Rightarrow> False | Some n \<Rightarrow> n > 0) \<rparr>
        \<in> set (pushedFor E client c)"
    by (simp add: pushedFor_def pr)
  with c show "\<lparr> name = c, count = resp_totalDocs resp, schema = emptySchema c (Some e),
          hasData = (case resp_totalDocs resp of None \<Rightarrow> False | Some n \<Rightarrow> n > 0) \<rparr> \<in> set infos"
    unfolding infos by auto
  let ?new = "concat (map (recordedFor E client env) names)"
  have "fsFails E (AddLog env INFO (AnalysisComplete c)) = None
          \<longrightarrow> Some c \<notin> set (map collection ?new)"
  proof
    assume ok: "fsFails E (AddLog env INFO (AnalysisComplete c)) = None"
    then have none: "recordedFor E client env c = []" by (simp add: recordedFor_def pr)
    show "Some c \<notin> set (map collection ?new)"
    proof
      assume "Some c \<in> set (map collection ?new)"
      then obtain x entry where "x \<in> set names" and en: "entry \<in> set (recordedFor E client env x)"
        and "collection entry = Some c" by auto
      with collection_recordedFor [OF en] have "x = c" by simp
      with en none show False by simp
    qed
  qed
  then show "\<exists>new. errors (stats s') = errors (stats s) @ new
             \<and> (fsFails E (AddLog env INFO (AnalysisComplete c)) = None
                  \<longrightarrow> Some c \<notin> set (map collection new))"
    using st by auto
qed

text \<open>The collection \<open>posts\<close> of the same server.\<close>

theorem schema_failure_keeps_collection_witness:
  "fetch (someOutside flakyApi healthyDisk) (config testClient) (CountPath ''posts'')
     = Inr (emptyBody\<lparr>resp_totalDocs := Some 1\<rparr>)
   \<and> fetch (someOutside flakyApi healthyDisk) (config testClient) (schemaRequest ''posts'')
     = Inl ''HTTP 500: Internal Server Error''
   \<and> fsFails (someOutside flakyApi healthyDisk) (AddLog ''test'' INFO (AnalysisComplete ''posts'')) = None
   \<and> (case discoverCollections (someOutside flakyApi healthyDisk) testClient
              (new_FileManager (someOutside flakyApi healthyDisk)) ''test'' freshState of
         (Inl e, s') \<Rightarrow> False
       | (Inr infos, s') \<Rightarrow>
           \<lparr> name = ''posts'', count = Some 1,
             schema = emptySchema ''posts'' (Some ''HTTP 500: Internal Server Error''),
             hasData = True \<rparr> \<in> set infos
           \<and> Some ''posts'' \<notin> set (map collection (errors (stats s'))))"
proof -
  let ?E = "someOutside flakyApi healthyDisk"
  have names: "client_discoverCollections ?E testClient freshState =
                 (Inr [''posts'', ''media'', ''pages''], freshState\<lparr>requests := [AccessPath]\<rparr>)"
    by (simp add: run_defs)
  have "\<exists>infos s'. discoverCollections ?E testClient (new_FileManager ?E) ''test'' freshState
           = (Inr infos, s')"
    by (simp add: run_defs schemaRequest_def)
  then obtain infos s' where
    ret: "discoverCollections ?E testClient (new_FileManager ?E) ''test'' freshState = (Inr infos, s')"
    by blast
  have c: "''posts'' \<in> set [''posts'', ''media'', ''pages'']" by simp
  have cnt: "fetch ?E (config testClient) (CountPath ''posts'') = Inr (emptyBody\<lparr>resp_totalDocs := Some 1\<rparr>)"
    by (simp add: demo_defs)
  have sch: "fetch ?E (config testClient) (schemaRequest ''posts'') = Inl ''HTTP 500: Internal Server Error''"
    by (simp add: demo_defs schemaRequest_def)
  have ok: "fsFails ?E (AddLog ''test'' INFO (AnalysisComplete ''posts'')) = None"
    by (simp add: demo_defs)
  have e0: "errors (stats freshState) = []" by (simp add: freshState_def new_stats_def)
  from schema_failure_keeps_collection [OF names ret c cnt sch, of freshState] ok cnt sch
  show ?thesis by (auto simp: ret e0)
qed

section \<open>Statistics only grow\<close>

text \<open>Past the constructor no step of the service takes anything out of the statistics,
  and only the first step of \<open>performBackup\<close> writes \<open>startTime\<close>.\<close>

lemma accumulates_refl: "accumulates a a"
  by (simp add: accumulates_def)

lemma accumulates_trans: "accumulates a b \<Longrightarrow> accumulates b c \<Longrightarrow> accumulates a c"
  by (auto simp: accumulates_def)

lemma pushError_grows:
  "accumulates (stats s) (stats (pushError entry s))
   \<and> startTime (stats (pushError entry s)) = startTime (stats s)"
  by (simp add: pushError_def accumulates_def)

lemma analysisFailed_grows:
  assumes "analysisFailed E fm env c e infos s = (r, s')"
  shows "accumulates (stats s) (stats s') \<and> startTime (stats s') = startTime (stats s)"
proof (cases "addLog E fm env WARN (AnalysisFailed c) s")
  case (Pair l s1)
  then have "stats s1 = stats s" using addLog_frame by blast
  with assms Pair pushError_grows [of s1] show ?thesis
    by (cases l) (auto simp: analysisFailed_def accumulates_refl)
qed

lemma analyzeCollection_grows:
  assumes "analyzeCollection E client fm env c infos s = (r, s')"
  shows "accumulates (stats s) (stats s') \<and> startTime (stats s') = startTime (stats s)"
proof (cases "probeCollection E client c s")
  case (Pair p s1)
  then have st1: "stats s1 = stats s" using probeCollection_stats [of E client c s] by simp
  show ?thesis
  proof (cases p)
    case (Inl e)
    with assms Pair have "analysisFailed E fm env c e infos s1 = (r, s')"
      by (simp add: analyzeCollection_def)
    from analysisFailed_grows [OF this] st1 show ?thesis by simp
  next
    case (Inr found)
    obtain cnt sch where found: "found = (cnt, sch)" by (cases found)
    let ?pushed = "infos @ [\<lparr> name = c, count = cnt, schema = sch,
                    hasData = (case cnt of None \<Rightarrow> False | Some n \<Rightarrow> n > 0) \<rparr>]"
    obtain l s2 where log: "addLog E fm env INFO (AnalysisComplete c) s1 = (l, s2)"
      by (cases "addLog E fm env INFO (AnalysisComplete c) s1")
    then have st2: "stats s2 = stats s1" using addLog_frame by blast
    show ?thesis
    proof (cases l)
      case (Inl e)
      with assms Pair Inr found log have "analysisFailed E fm env c e ?pushed s2 = (r, s')"
        by (simp add: analyzeCollection_def Let_def)
      from analysisFailed_grows [OF this] st1 st2 show ?thesis by simp
    next
      case (Inr u)
      with assms Pair \<open>p = Inr found\<close> found log have "s' = s2"
        by (simp add: analyzeCollection_def Let_def)
      with st1 st2 show ?thesis by (simp add: accumulates_refl)
    qed
  qed
qed

lemma analyzeCollections_grows:
  "analyzeCollections E client fm env names infos s = (r, s') \<Longrightarrow>
     accumulates (stats s) (stats s') \<and> startTime (stats s') = startTime (stats s)"
proof (induction names arbitrary: infos s)
  case Nil
  then show ?case by (auto simp: accumulates_refl)
next
  case (Cons c cs)
  obtain a s1 where a: "analyzeCollection E client fm env c infos s = (a, s1)"
    by (cases "analyzeCollection E client fm env c infos s")
  note g1 = analyzeCollection_grows [OF a]
  show ?case
  proof (cases a)
    case (Inl e)
    with Cons.prems a have "s' = s1" by simp
    with g1 show ?thesis by simp
  next
    case (Inr mid)
    with Cons.prems a have "analyzeCollections E client fm env cs mid s1 = (r, s')" by simp
    from Cons.IH [OF this] g1 show ?thesis by (auto intro: accumulates_trans)
  qed
qed

lemma discoverCollections_grows:
  assumes "discoverCollections E client fm env s = (r, s')"
  shows "accumulates (stats s) (stats s') \<and> startTime (stats s') = startTime (stats s)"
proof (cases "client_discoverCollections E client s")
  case (Pair d s1)
  then have st1: "stats s1 = stats s" by (rule client_discoverCollections_stats)
  show ?thesis
  proof (cases d)
    case (Inl e)
    with assms Pair st1 show ?thesis by (auto simp: discoverCollections_def accumulates_refl)
  next
    case (Inr names)
    obtain l s2 where log: "addLog E fm env INFO (Discovered (length names)) s1 = (l, s2)"
      by (cases "addLog E fm env INFO (Discovered (length names)) s1")
    then have st2: "stats s2 = stats s1" using addLog_frame by blast
    show ?thesis
    proof (cases l)
      case (Inl e)
      with assms Pair \<open>d = Inr names\<close> log st1 st2 show ?thesis
        by (auto simp: discoverCollections_def accumulates_refl)
    next
      case (Inr u)
      with assms Pair \<open>d = Inr names\<close> log
      have "analyzeCollections E client fm env names [] s2 = (r, s')"
        by (simp add: discoverCollections_def)
      from analyzeCollections_grows [OF this] st1 st2 show ?thesis by simp
    qed
  qed
qed

lemma backupFailed_grows:
  assumes "backupFailed E fm env c e s = (r, s')"
  shows "accumulates (stats s) (stats s') \<and> startTime (stats s') = startTime (stats s)"
  using assms
  by (auto simp: backupFailed_def Let_def pushError_def accumulates_def
      split: prod.splits sum.splits dest!: addLog_frame)

lemma saveCollectionData_frame:
  "saveCollectionData E fm env c docs s = (r, s') \<Longrightarrow> stats s' = stats s"
  by (auto simp: saveCollectionData_def dest: perform_frame)

lemma saveCollectionSchema_frame:
  "saveCollectionSchema E fm env c sch s = (r, s') \<Longrightarrow> stats s' = stats s"
  by (auto simp: saveCollectionSchema_def split: if_splits dest: perform_frame)

lemma recordSuccess_grows:
  "accumulates (stats s) (stats (recordSuccess n s))
   \<and> startTime (stats (recordSuccess n s)) = startTime (stats s)"
  by (simp add: recordSuccess_def accumulates_def)

lemma backupCollection_grows:
  assumes "backupCollection E client fm env info s = Some (r, s')"
  shows "accumulates (stats s) (stats s') \<and> startTime (stats s') = startTime (stats s)"
proof (cases "count info = Some 0")
  case True
  with assms show ?thesis by (simp add: backupCollection_def accumulates_refl)
next
  case False
  with assms obtain g s1 where
    g: "getAllCollectionData E client (name info) s = Some (g, s1)"
    by (auto simp: backupCollection_def Let_def split: option.splits)
  then have st1: "stats s1 = stats s" using getAllCollectionData_frame by blast
  show ?thesis
  proof (cases g)
    case (Inl e)
    with assms False g have "backupFailed E fm env (name info) e s1 = (r, s')"
      by (simp add: backupCollection_def Let_def)
    from backupFailed_grows [OF this] st1 show ?thesis by simp
  next
    case (Inr data)
    obtain a s2 where a: "saveCollectionData E fm env (name info) data s1 = (a, s2)"
      by (cases "saveCollectionData E fm env (name info) data s1")
    then have st2: "stats s2 = stats s1" by (rule saveCollectionData_frame)
    show ?thesis
    proof (cases a)
      case (Inl e)
      with assms False g \<open>g = Inr data\<close> a have "backupFailed E fm env (name info) e s2 = (r, s')"
        by (simp add: backupCollection_def Let_def)
      from backupFailed_grows [OF this] st1 st2 show ?thesis by simp
    next
      case (Inr u)
      obtain b s3 where b: "saveCollectionSchema E fm env (name info) (schema info) s2 = (b, s3)"
        by (cases "saveCollectionSchema E fm env (name info) (schema info) s2")
      then have st3: "stats s3 = stats s2" by (rule saveCollectionSchema_frame)
      show ?thesis
      proof (cases b)
        case (Inl e)
        with assms False g \<open>g = Inr data\<close> a \<open>a = Inr u\<close> b
        have "backupFailed E fm env (name info) e s3 = (r, s')"
          by (simp add: backupCollection_def Let_def)
        from backupFailed_grows [OF this] st1 st2 st3 show ?thesis by simp
      next
        case (Inr u')
        obtain l s4 where l: "addLog E fm env INFO (BackupSuccessful (name info))
                                 (recordSuccess (length data) s3) = (l, s4)"
          by (cases "addLog E fm env INFO (BackupSuccessful (name info))
                       (recordSuccess (length data) s3)")
        then have st4: "stats s4 = stats (recordSuccess (length data) s3)"
          using addLog_frame by blast
        have g4: "accumulates (stats s) (stats s4) \<and> startTime (stats s4) = startTime (stats s)"
          using recordSuccess_grows [of s3 "length data"] st1 st2 st3 st4 by simp
        show ?thesis
        proof (cases l)
          case (Inl e)
          with assms False g \<open>g = Inr data\<close> a \<open>a = Inr u\<close> b \<open>b = Inr u'\<close> l
          have "backupFailed E fm env (name info) e s4 = (r, s')"
            by (simp add: backupCollection_def Let_def)
          from backupFailed_grows [OF this] g4 show ?thesis by (auto intro: accumulates_trans)
        next
          case (Inr u'')
          with assms False g \<open>g = Inr data\<close> a \<open>a = Inr u\<close> b \<open>b = Inr u'\<close> l
          have "s' = s4" by (simp add: backupCollection_def Let_def)
          with g4 show ?thesis by simp
        qed
      qed
    qed
  qed
qed

lemma backupCollections_grows:
  "backupCollections E client fm env cols s = Some (r, s') \<Longrightarrow>
     accumulates (stats s) (stats s') \<and> startTime (stats s') = startTime (stats s)"
proof (induction cols arbitrary: s)
  case Nil
  then show ?case by (auto simp: accumulates_refl)
next
  case (Cons col cols)
  from Cons.prems obtain b s1 where
    b: "backupCollection E client fm env col s = Some (b, s1)"
    by (auto split: option.splits)
  note g1 = backupCollection_grows [OF b]
  show ?case
  proof (cases b)
    case (Inl e)
    with Cons.prems b have "s' = s1" by simp
    with g1 show ?thesis by simp
  next
    case (Inr ok)
    with Cons.prems b have "backupCollections E client fm env cols s1 = Some (r, s')" by simp
    from Cons.IH [OF this] g1 show ?thesis by (auto intro: accumulates_trans)
  qed
qed

lemma generateFinalReport_grows:
  assumes "generateFinalReport E fm env cols s = (r, s')"
  shows "accumulates (stats s) (stats s') \<and> startTime (stats s') = startTime (stats s)"
  using assms
  by (auto simp: generateFinalReport_def Let_def saveMetadata_def generateSummary_def
        accumulates_def
      split: prod.splits sum.splits dest!: perform_frame)

lemma validateConnection_frame:
  "validateConnection E client s = (r, s') \<Longrightarrow> stats s' = stats s"
  by (auto simp: validateConnection_def getAccess_def limitedRequest_def request_def
      split: sum.splits)

lemma createBackupStructure_frame:
  "createBackupStructure E fm env s = (r, s') \<Longrightarrow> stats s' = stats s"
  by (auto simp: createBackupStructure_def split: prod.splits sum.splits dest!: perform_frame)

lemma performBackup_try_grows:
  assumes "performBackup_try E env s = Some (r, s')"
  shows "accumulates (stats s) (stats s') \<and> startTime (stats s') = startTime (stats s)"
proof (cases "getEnvConfig E env")
  case (Inl e)
  with assms show ?thesis by (simp add: performBackup_try_def accumulates_refl)
next
  case (Inr cfg)
  let ?client = "\<lparr> config = cfg \<rparr>"
  let ?fm = "new_FileManager E"
  obtain v s1 where v: "validateConnection E ?client s = (v, s1)"
    by (cases "validateConnection E ?client s")
  then have st1: "stats s1 = stats s" by (rule validateConnection_frame)
  show ?thesis
  proof (cases "v = Inr True")
    case False
    with assms Inr v have "s' = s1"
      by (cases v) (auto simp: performBackup_try_def Let_def)
    with st1 show ?thesis by (simp add: accumulates_refl)
  next
    case True
    obtain b s2 where b: "createBackupStructure E ?fm env s1 = (b, s2)"
      by (cases "createBackupStructure E ?fm env s1")
    then have st2: "stats s2 = stats s1" by (rule createBackupStructure_frame)
    show ?thesis
    proof (cases b)
      case (Inl e)
      with assms Inr v True b have "s' = s2" by (simp add: performBackup_try_def Let_def)
      with st1 st2 show ?thesis by (simp add: accumulates_refl)
    next
      case (Inr backupDir)
      obtain d s3 where d: "discoverCollections E ?client ?fm env s2 = (d, s3)"
        by (cases "discoverCollections E ?client ?fm env s2")
      from discoverCollections_grows [OF d] st1 st2
      have g3: "accumulates (stats s) (stats s3) \<and> startTime (stats s3) = startTime (stats s)"
        by simp
      show ?thesis
      proof (cases d)
        case (Inl e)
        with assms \<open>getEnvConfig E env = Inr cfg\<close> v True b \<open>b = Inr backupDir\<close> d
        have "s' = s3" by (simp add: performBackup_try_def Let_def)
        with g3 show ?thesis by simp
      next
        case (Inr cols)
        let ?s4 = "s3\<lparr>stats := (stats s3)\<lparr>totalCollections := length cols\<rparr>\<rparr>"
        have g4: "accumulates (stats s) (stats ?s4) \<and> startTime (stats ?s4) = startTime (stats s)"
          using g3 by (simp add: accumulates_def)
        show ?thesis
        proof (cases "length cols = 0")
          case True
          with assms \<open>getEnvConfig E env = Inr cfg\<close> v \<open>v = Inr True\<close> b \<open>b = Inr backupDir\<close> d
            \<open>d = Inr cols\<close>
          have "s' = ?s4" by (simp add: performBackup_try_def Let_def)
          with g4 show ?thesis by simp
        next
          case False
          with assms \<open>getEnvConfig E env = Inr cfg\<close> v \<open>v = Inr True\<close> b \<open>b = Inr backupDir\<close> d
            \<open>d = Inr cols\<close>
          obtain a s5 where a: "backupCollections E ?client ?fm env cols ?s4 = Some (a, s5)"
            by (auto simp: performBackup_try_def Let_def split: option.splits)
          from backupCollections_grows [OF a] g4
          have g5: "accumulates (stats s) (stats s5) \<and> startTime (stats s5) = startTime (stats s)"
            by (auto intro: accumulates_trans)
          show ?thesis
          proof (cases a)
            case (Inl e)
            with assms \<open>getEnvConfig E env = Inr cfg\<close> v \<open>v = Inr True\<close> b \<open>b = Inr backupDir\<close> d
              \<open>d = Inr cols\<close> False a
            have "s' = s5" by (simp add: performBackup_try_def Let_def)
            with g5 show ?thesis by simp
          next
            case (Inr u)
            with assms \<open>getEnvConfig E env = Inr cfg\<close> v \<open>v = Inr True\<close> b \<open>b = Inr backupDir\<close> d
              \<open>d = Inr cols\<close> False a
            have "generateFinalReport E ?fm env cols s5 = (r, s')"
              by (simp add: performBackup_try_def Let_def)
            from generateFinalReport_grows [OF this] g5 show ?thesis
              by (auto intro: accumulates_trans)
          qed
        qed
      qed
    qed
  qed
qed

lemma performBackup_grows:
  assumes "performBackup E env s = Some (result, s')"
  shows "accumulates (stats s) (stats s') \<and> startTime (stats s') = Some (clockAtStart E)"
proof -
  have g0: "accumulates (stats s) (stats (started E s))
            \<and> startTime (stats (started E s)) = Some (clockAtStart E)"
    by (simp add: started_def accumulates_def)
  from assms obtain r s1 where t: "performBackup_try E env (started E s) = Some (r, s1)"
    by (auto simp: performBackup_def started_def Let_def split: option.splits)
  from performBackup_try_grows [OF t] g0
  have g1: "accumulates (stats s) (stats s1) \<and> startTime (stats s1) = Some (clockAtStart E)"
    by (auto intro: accumulates_trans)
  show ?thesis
  proof (cases r)
    case (Inl e)
    with assms t have "s' = pushError \<lparr> collection = None, phase = ''general'', error = e \<rparr> s1"
      by (simp add: performBackup_def started_def Let_def)
    with g1 pushError_grows [of s1] show ?thesis by (auto intro: accumulates_trans)
  next
    case (Inr res)
    with assms t have "s' = s1" by (simp add: performBackup_def started_def Let_def)
    with g1 show ?thesis by simp
  qed
qed

text \<open>
  C10. The statistics are created by the constructor (\<open>new_stats\<close>) and by nothing else:
  \<open>performBackup\<close> writes \<open>startTime\<close> and goes on from the statistics it finds. So when
  \<open>performBackup\<close> is run a second time on a service, the statistics of the second result
  hold those of the first: no counter is smaller, the error entries of the first run open
  those of the second, and the second run is unsuccessful whenever the first one was.
\<close>

theorem second_run_accumulates:
  assumes "stats s0 = new_stats"
    and "performBackup E1 env1 s0 = Some (first, s1)"
    and "performBackup E2 env2 s1 = Some (second, s2)"
  shows "totalRecords (statistics first) \<le> totalRecords (statistics second)
       \<and> successfulCollections (statistics first) \<le> successfulCollections (statistics second)
       \<and> failedCollections (statistics first) \<le> failedCollections (statistics second)
       \<and> prefix (errors (statistics first)) (errors (statistics second))
       \<and> startTime (statistics second) = Some (clockAtStart E2)
       \<and> (\<not> success first \<longrightarrow> \<not> success second)"
proof -
  from assms(2) obtain fm1 cols1 where r1: "first = getBackupResult E1 s1 env1 fm1 cols1"
    using performBackup_result by blast
  from assms(3) obtain fm2 cols2 where r2: "second = getBackupResult E2 s2 env2 fm2 cols2"
    using performBackup_result by blast
  from performBackup_grows [OF assms(3)]
  have g: "accumulates (stats s1) (stats s2)" and t: "startTime (stats s2) = Some (clockAtStart E2)"
    by simp_all
  have st: "statistics first = stats s1" "statistics second = stats s2"
    by (simp_all add: r1 r2 getBackupResult_def)
  have "\<not> success first \<longrightarrow> \<not> success second"
    using g by (auto simp: r1 r2 getBackupResult_def accumulates_def)
  with g t st show ?thesis by (simp add: accumulates_def)
qed

text \<open>A first run against the server that cannot count \<open>media\<close> records one discovery
  error; a second, clean run against the server with two collections still reports it.\<close>

theorem second_run_accumulates_witness:
  "stats freshState = new_stats \<and>
   (case performBackup (someOutside flakyApi healthyDisk) ''test'' freshState of
      None \<Rightarrow> False
    | Some (first, s1) \<Rightarrow>
        (case performBackup (someOutside blogApi healthyDisk) ''test'' s1 of
           None \<Rightarrow> False
         | Some (second, s2) \<Rightarrow>
             \<not> success first \<and> \<not> success second
             \<and> totalRecords (statistics first) = 1 \<and> totalRecords (statistics second) = 3
             \<and> successfulCollections (statistics first) = 2
             \<and> successfulCollections (statistics second) = 3
             \<and> prefix (errors (statistics first)) (errors (statistics second))
             \<and> length (errors (statistics second)) = 1))"
proof -
  let ?F = "someOutside flakyApi healthyDisk"
  let ?B = "someOutside blogApi healthyDisk"
  have fresh: "stats freshState = new_stats" by (simp add: freshState_def)
  have ran: "(case performBackup ?F ''test'' freshState of
      None \<Rightarrow> False
    | Some (first, s1) \<Rightarrow>
        (case performBackup ?B ''test'' s1 of
           None \<Rightarrow> False
         | Some (second, s2) \<Rightarrow>
             \<not> success first
             \<and> totalRecords (statistics first) = 1 \<and> totalRecords (statistics second) = 3
             \<and> successfulCollections (statistics first) = 2
             \<and> successfulCollections (statistics second) = 3
             \<and> length (errors (statistics second)) = 1))"
    by (simp add: run_defs)
  then obtain first s1 where r1: "performBackup ?F ''test'' freshState = Some (first, s1)"
    by (auto split: option.splits)
  with ran obtain second s2 where r2: "performBackup ?B ''test'' s1 = Some (second, s2)"
    by (auto split: option.splits)
  from second_run_accumulates [OF fresh r1 r2] ran fresh
  show ?thesis by (simp add: r1 r2)
qed

end
